theory Spec2Isabelle
  imports Main "HOL-Library.Multiset" "HOL-Library.Char_ord" "HOL-Library.List_Lexorder"
begin

section \<open>Data model\<close>

text \<open>
  The two scripts \<^verbatim>\<open>scripts/atlas.js\<close> and \<^verbatim>\<open>scripts/generate_atlas_text.js\<close>
  are modelled as pure functions of the things they read: the command line, the directory
  of the script, the directory tree below the image directory and the result of
  \<^verbatim>\<open>Jimp.read\<close> on every path.

  JavaScript strings are modelled as \<^typ>\<open>string\<close>; image dimensions
  (\<^verbatim>\<open>image.bitmap.width\<close>, \<^verbatim>\<open>image.bitmap.height\<close>) are natural numbers, as a
  decoded bitmap has them. A thrown \<^verbatim>\<open>Error\<close> is a value \<open>Inl message\<close>.
  Console output is not modelled.
\<close>

type_synonym error = string

text \<open>\<^verbatim>\<open>image.bitmap\<close> of a Jimp image: its size and its RGBA bytes.\<close>

record bitmap =
  width :: nat
  height :: nat
  data :: "nat list"

text \<open>
  The Jimp canvas built by \<^verbatim>\<open>atlas.js\<close>. Jimp is a library outside the repository, so
  the canvas is the record of what the script asked of it: the constructor arguments
  \<^verbatim>\<open>{ width, height, color }\<close> and the calls \<^verbatim>\<open>composite(image, x, y)\<close> in order.
\<close>

record spritesheet =
  sheet_width :: nat
  sheet_height :: nat
  sheet_color :: nat
  composited :: "(bitmap \<times> nat \<times> nat) list"

definition new_Jimp :: "nat \<Rightarrow> nat \<Rightarrow> nat \<Rightarrow> spritesheet" where
  "new_Jimp w h c = \<lparr>sheet_width = w, sheet_height = h, sheet_color = c, composited = []\<rparr>"

definition composite :: "spritesheet \<Rightarrow> bitmap \<Rightarrow> nat \<Rightarrow> nat \<Rightarrow> spritesheet" where
  "composite sheet img x y = sheet\<lparr>composited := composited sheet @ [(img, x, y)]\<rparr>"

text \<open>\<^verbatim>\<open>{ path: imagePath, ...dimensions }\<close> of \<^verbatim>\<open>generate_atlas_text.js\<close>.\<close>

record image_data =
  path :: string
  img_width :: nat
  img_height :: nat

section \<open>Loading and measuring (first loop of both scripts)\<close>

text \<open>\<^verbatim>\<open>loadImage\<close> of \<^verbatim>\<open>atlas.js\<close>: \<^verbatim>\<open>Jimp.read\<close>, with the error rewrapped.\<close>

definition loadImage :: "(string \<Rightarrow> error + bitmap) \<Rightarrow> string \<Rightarrow> error + bitmap" where
  "loadImage Jimp_read imagePath =
     (case Jimp_read imagePath of
        Inl msg \<Rightarrow> Inl (''Failed to load image at '' @ imagePath @ '': '' @ msg)
      | Inr img \<Rightarrow> Inr img)"

text \<open>\<^verbatim>\<open>getImageDimensions\<close> of \<^verbatim>\<open>generate_atlas_text.js\<close>.\<close>

definition getImageDimensions :: "(string \<Rightarrow> error + bitmap) \<Rightarrow> string \<Rightarrow> error + (nat \<times> nat)" where
  "getImageDimensions Jimp_read imagePath =
     (case Jimp_read imagePath of
        Inl msg \<Rightarrow> Inl (''Failed to get dimensions for image at '' @ imagePath @ '': '' @ msg)
      | Inr img \<Rightarrow> Inr (width img, height img))"

text \<open>
  \<^verbatim>\<open>atlas.js\<close>, lines 85 to 103: the loop over \<^verbatim>\<open>imageFiles\<close> with the locals
  \<^verbatim>\<open>images\<close>, \<^verbatim>\<open>maxWidth\<close>, \<^verbatim>\<open>totalHeight\<close>. The inner \<^verbatim>\<open>catch\<close> rethrows.
\<close>

fun load_loop ::
  "(string \<Rightarrow> error + bitmap) \<Rightarrow> string list \<Rightarrow> bitmap list \<times> nat \<times> nat
     \<Rightarrow> error + (bitmap list \<times> nat \<times> nat)" where
  "load_loop Jimp_read [] st = Inr st"
| "load_loop Jimp_read (imagePath # rest) (images, maxWidth, totalHeight) =
     (case loadImage Jimp_read imagePath of
        Inl e \<Rightarrow> Inl ''Spritesheet creation aborted due to image loading errors''
      | Inr img \<Rightarrow>
          load_loop Jimp_read rest
            (images @ [img], max maxWidth (width img), totalHeight + height img))"

text \<open>\<^verbatim>\<open>generate_atlas_text.js\<close>, lines 84 to 100.\<close>

fun dimensions_loop ::
  "(string \<Rightarrow> error + bitmap) \<Rightarrow> string list \<Rightarrow> image_data list \<times> nat \<times> nat
     \<Rightarrow> error + (image_data list \<times> nat \<times> nat)" where
  "dimensions_loop Jimp_read [] st = Inr st"
| "dimensions_loop Jimp_read (imagePath # rest) (imageData, maxWidth, totalHeight) =
     (case getImageDimensions Jimp_read imagePath of
        Inl e \<Rightarrow> Inl ''Atlas text file generation aborted due to image dimension errors''
      | Inr (w, h) \<Rightarrow>
          dimensions_loop Jimp_read rest
            (imageData @ [\<lparr>path = imagePath, img_width = w, img_height = h\<rparr>],
             max maxWidth w, totalHeight + h))"

section \<open>Placing (second loop of both scripts)\<close>

text \<open>\<^verbatim>\<open>atlas.js\<close>, lines 108 to 116: \<^verbatim>\<open>yOffset\<close> and the canvas are the loop state.\<close>

fun composite_loop :: "bitmap list \<Rightarrow> spritesheet \<times> nat \<Rightarrow> spritesheet \<times> nat" where
  "composite_loop [] st = st"
| "composite_loop (img # rest) (sheet, yOffset) =
     composite_loop rest (composite sheet img 0 yOffset, yOffset + height img)"

section \<open>Strings and numbers of the JavaScript runtime\<close>

text \<open>
  \<^verbatim>\<open>String.prototype.toLowerCase\<close> on the ASCII letters. No other character maps to
  an ASCII string, so membership in the extension allow-list is decided by this part.
\<close>

definition toLowerCase :: "string \<Rightarrow> string" where
  "toLowerCase s =
     map (\<lambda>c. if CHR ''A'' \<le> c \<and> c \<le> CHR ''Z'' then char_of (of_char c + (32::nat)) else c) s"

text \<open>\<^verbatim>\<open>s.lastIndexOf(c)\<close>: the index of the last occurrence, or \<open>-1\<close>.\<close>

definition lastIndexOf :: "string \<Rightarrow> char \<Rightarrow> int" where
  "lastIndexOf s c =
     (if c \<in> set s then int (length s) - 1 - int (length (takeWhile (\<lambda>x. x \<noteq> c) (rev s)))
      else - 1)"

text \<open>
  \<^verbatim>\<open>s.substring(start, fin)\<close>: both indices are clamped to \<open>0 .. s.length\<close> and swapped
  when out of order.
\<close>

definition substring :: "string \<Rightarrow> int \<Rightarrow> int \<Rightarrow> string" where
  "substring s start fin =
     (let n = int (length s);
          a = max 0 (min start n);
          b = max 0 (min fin n)
      in take (nat (max a b - min a b)) (drop (nat (min a b)) s))"

text \<open>\<^verbatim>\<open>s.replace(/\\/g, '/')\<close>: every backslash becomes a slash.\<close>

definition replace_backslashes :: "string \<Rightarrow> string" where
  "replace_backslashes s = map (\<lambda>c. if c = CHR 0x5C then CHR ''/'' else c) s"

text \<open>
  A number in a template literal. The numbers printed are sums and maxima of bitmap
  sizes, natural numbers, which JavaScript prints in decimal (below \<open>10^21\<close>).
\<close>

definition digit_char :: "nat \<Rightarrow> char" where
  "digit_char d = ''0123456789'' ! d"

fun Number_toString :: "nat \<Rightarrow> string" where
  "Number_toString n =
     (if n < 10 then [digit_char n] else Number_toString (n div 10) @ [digit_char (n mod 10)])"

declare Number_toString.simps [simp del]

definition newline :: string where
  "newline = [CHR 0x0A]"

text \<open>\<^verbatim>\<open>imageFiles.sort()\<close>: ascending in the order of the code units.\<close>

definition Array_sort :: "string list \<Rightarrow> string list" where
  "Array_sort xs = sort xs"

section \<open>The \<^verbatim>\<open>path\<close> module of Node.js (POSIX)\<close>

text \<open>
  \<^verbatim>\<open>path\<close> belongs to the runtime, not to the repository; it is modelled here as
  its POSIX variant is documented. All paths handled are below \<^verbatim>\<open>__dirname\<close>, an
  absolute path.
\<close>

fun split_path :: "string \<Rightarrow> string list" where
  "split_path [] = [[]]"
| "split_path (c # cs) =
     (if c = CHR ''/'' then [] # split_path cs
      else (case split_path cs of [] \<Rightarrow> [[c]] | s # ss \<Rightarrow> (c # s) # ss))"

fun join_with :: "string \<Rightarrow> string list \<Rightarrow> string" where
  "join_with sep [] = []"
| "join_with sep [s] = s"
| "join_with sep (s # t # ss) = s @ sep @ join_with sep (t # ss)"

text \<open>
  One step of \<^verbatim>\<open>normalizeString\<close>: empty segments and \<^verbatim>\<open>.\<close> vanish, \<^verbatim>\<open>..\<close>
  removes the segment before it; above the top it is kept only when allowed.
\<close>

definition normalize_step :: "bool \<Rightarrow> string list \<Rightarrow> string \<Rightarrow> string list" where
  "normalize_step allowAboveRoot res seg =
     (if seg = [] \<or> seg = ''.'' then res
      else if seg = ''..'' then
        (if res \<noteq> [] \<and> last res \<noteq> ''..'' then butlast res
         else if allowAboveRoot then res @ [''..''] else res)
      else res @ [seg])"

definition normalize_segments :: "string \<Rightarrow> bool \<Rightarrow> string list" where
  "normalize_segments p allowAboveRoot = foldl (normalize_step allowAboveRoot) [] (split_path p)"

definition path_normalize :: "string \<Rightarrow> string" where
  "path_normalize p =
     (if p = [] then ''.''
      else
        let isAbsolute = (hd p = CHR ''/'');
            trailingSeparator = (last p = CHR ''/'');
            q = join_with ''/'' (normalize_segments p (\<not> isAbsolute))
        in if q = [] then (if isAbsolute then ''/'' else if trailingSeparator then ''./'' else ''.'')
           else (if isAbsolute then ''/'' else []) @ q @ (if trailingSeparator then ''/'' else []))"

text \<open>\<^verbatim>\<open>path.join(a, b)\<close>: the non-empty arguments joined by a slash, then normalised.\<close>

definition path_join :: "string \<Rightarrow> string \<Rightarrow> string" where
  "path_join a b =
     (let joined = (if a = [] then b else if b = [] then a else a @ ''/'' @ b)
      in if joined = [] then ''.'' else path_normalize joined)"

fun common_prefix_length :: "'a list \<Rightarrow> 'a list \<Rightarrow> nat" where
  "common_prefix_length (x # xs) (y # ys) = (if x = y then Suc (common_prefix_length xs ys) else 0)"
| "common_prefix_length _ _ = 0"

text \<open>
  \<^verbatim>\<open>path.relative(a, b)\<close> for absolute paths (neither is resolved against the working
  directory): one \<^verbatim>\<open>..\<close> for each segment of \<open>a\<close> outside the common part, then the
  rest of \<open>b\<close>.
\<close>

definition path_relative :: "string \<Rightarrow> string \<Rightarrow> string" where
  "path_relative a b =
     (if a = b then []
      else
        let sa = normalize_segments a False;
            sb = normalize_segments b False;
            k = common_prefix_length sa sb
        in join_with ''/'' (replicate (length sa - k) ''..'' @ drop k sb))"

text \<open>The last portion of a path: trailing slashes are ignored.\<close>

definition last_component :: "string \<Rightarrow> string" where
  "last_component p =
     rev (takeWhile (\<lambda>c. c \<noteq> CHR ''/'') (dropWhile (\<lambda>c. c = CHR ''/'') (rev p)))"

text \<open>
  \<^verbatim>\<open>path.extname(p)\<close>: from the last dot of the last portion to its end; empty when
  there is no dot, when the only dot is the first character, and for \<^verbatim>\<open>..\<close>.
\<close>

definition path_extname :: "string \<Rightarrow> string" where
  "path_extname p =
     (let c = last_component p; d = lastIndexOf c CHR ''.''
      in if d \<le> 0 \<or> c = ''..'' then [] else drop (nat d) c)"

text \<open>
  \<^verbatim>\<open>path.basename(p, suffix)\<close>: the last portion, without the suffix when the portion
  ends with it and is longer. (When the portion is a proper end of the suffix, Node returns
  it together with the trailing slashes of \<open>p\<close>.)
\<close>

definition path_basename :: "string \<Rightarrow> string \<Rightarrow> string" where
  "path_basename p suffix =
     (let c = last_component p in
      if suffix \<noteq> [] \<and> length suffix \<le> length p then
        if suffix = p then []
        else if length suffix < length c \<and> drop (length c - length suffix) c = suffix
          then take (length c - length suffix) c
        else if length c < length suffix \<and> drop (length suffix - length c) suffix = c
          then c @ takeWhile (\<lambda>x. x = CHR ''/'') (rev p)
        else c
      else c)"

section \<open>Discovery\<close>

text \<open>
  What \<^verbatim>\<open>fs.promises.readdir(dir, { withFileTypes: true })\<close> yields: an error, or the
  entries of the directory. An entry for which \<^verbatim>\<open>isDirectory()\<close> is false carries its
  type; a directory carries what listing it will yield in turn.
\<close>

datatype dirent_type = RegularFile | SymbolicLink | FIFO | Socket | BlockDevice | CharacterDevice

datatype dirent =
    Entry string dirent_type
  | Directory string readdir_result
and readdir_result =
    Rejected error
  | Resolved "dirent list"

fun name :: "dirent \<Rightarrow> string" where
  "name (Entry n k) = n"
| "name (Directory n sub) = n"

fun isDirectory :: "dirent \<Rightarrow> bool" where
  "isDirectory (Entry n k) = False"
| "isDirectory (Directory n sub) = True"

text \<open>
  \<^verbatim>\<open>Promise.all\<close>: all the results in the order of the promises, or a rejection (the
  first in the list here; which one wins a race is not modelled).
\<close>

fun Promise_all :: "(error + 'a) list \<Rightarrow> error + 'a list" where
  "Promise_all [] = Inr []"
| "Promise_all (Inl e # ps) = Inl e"
| "Promise_all (Inr x # ps) = (case Promise_all ps of Inl e \<Rightarrow> Inl e | Inr xs \<Rightarrow> Inr (x # xs))"

definition image_extensions :: "string list" where
  "image_extensions = [''.png'', ''.jpg'', ''.jpeg'', ''.bmp'', ''.gif'']"

text \<open>\<^verbatim>\<open>getImageFilesRecursively\<close>, the same function in both scripts.\<close>

fun getImageFilesRecursively :: "string \<Rightarrow> readdir_result \<Rightarrow> error + string list" where
  "getImageFilesRecursively dir (Rejected e) = Inl e"
| "getImageFilesRecursively dir (Resolved entries) =
     (case Promise_all
        (map (\<lambda>entry.
           let fullPath = path_join dir (name entry) in
           (case entry of
              Directory n sub \<Rightarrow> getImageFilesRecursively fullPath sub
            | Entry n k \<Rightarrow>
                (let ext = toLowerCase (path_extname n) in
                 if ext \<in> set image_extensions then Inr [fullPath] else Inr [])))
           entries) of
        Inl e \<Rightarrow> Inl e
      | Inr files \<Rightarrow> Inr (concat files))"

text \<open>
  To say what discovery returns: \<open>lies_below dir listing p n k\<close> holds when the tree
  listed at \<open>dir\<close> has, at any depth, an entry named \<open>n\<close> of type \<open>k\<close> that is not a
  directory, and \<open>p\<close> is its path, joined from \<open>dir\<close> through the directories above it.
\<close>

inductive lies_below :: "string \<Rightarrow> readdir_result \<Rightarrow> string \<Rightarrow> string \<Rightarrow> dirent_type \<Rightarrow> bool" where
  here: "Entry n k \<in> set entries \<Longrightarrow> lies_below dir (Resolved entries) (path_join dir n) n k"
| deeper: "Directory d sub \<in> set entries \<Longrightarrow> lies_below (path_join dir d) sub p n k
     \<Longrightarrow> lies_below dir (Resolved entries) p n k"

text \<open>Every directory of the tree can be listed.\<close>

fun listable :: "readdir_result \<Rightarrow> bool" where
  "listable (Rejected e) = False"
| "listable (Resolved entries) =
     (\<forall>entry\<in>set entries. case entry of Entry n k \<Rightarrow> True | Directory n sub \<Rightarrow> listable sub)"

section \<open>The descriptor text\<close>

text \<open>\<^verbatim>\<open>generate_atlas_text.js\<close>, lines 105 to 109: the header.\<close>

definition header :: "string \<Rightarrow> nat \<Rightarrow> nat \<Rightarrow> string" where
  "header outputImageReferenceName maxWidth totalHeight =
     outputImageReferenceName @ newline
     @ ''size: '' @ Number_toString maxWidth @ '', '' @ Number_toString totalHeight @ newline
     @ ''format: RGBA8888'' @ newline
     @ ''filter: MipMapLinearLinear, MipMapLinearLinear'' @ newline
     @ ''repeat: none'' @ newline"

text \<open>Lines 116 to 124: what one pass of the loop appends for \<open>img\<close> at \<open>yOffset\<close>.\<close>

definition region_block :: "string \<Rightarrow> string \<Rightarrow> image_data \<Rightarrow> nat \<Rightarrow> string" where
  "region_block imageDirectory prependPath img yOffset =
     (let relativePathWithExtension =
            replace_backslashes (path_relative imageDirectory (path img));
          relativePathWithoutExtension =
            substring relativePathWithExtension 0
              (lastIndexOf relativePathWithExtension CHR ''.'')
      in prependPath @ relativePathWithoutExtension @ newline
         @ ''  rotate: false'' @ newline
         @ ''  xy: 0, '' @ Number_toString yOffset @ newline
         @ ''  size: '' @ Number_toString (img_width img) @ '', ''
             @ Number_toString (img_height img) @ newline
         @ ''  orig: '' @ Number_toString (img_width img) @ '', ''
             @ Number_toString (img_height img) @ newline
         @ ''  offset: 0, 0'' @ newline
         @ ''  index: -1'' @ newline)"

text \<open>
  Lines 116 to 118 on their own: the first line of the block, \<^verbatim>\<open>prependPath\<close> followed
  by \<^verbatim>\<open>relativePathWithoutExtension\<close>.
\<close>

definition relativePathWithoutExtension :: "string \<Rightarrow> string \<Rightarrow> string" where
  "relativePathWithoutExtension imageDirectory imagePath =
     (let relativePathWithExtension = replace_backslashes (path_relative imageDirectory imagePath)
      in substring relativePathWithExtension 0 (lastIndexOf relativePathWithExtension CHR ''.''))"

text \<open>Lines 111 to 126: \<^verbatim>\<open>outputContent\<close> and \<^verbatim>\<open>yOffset\<close> are the loop state.\<close>

fun regions_loop :: "string \<Rightarrow> string \<Rightarrow> image_data list \<Rightarrow> string \<times> nat \<Rightarrow> string \<times> nat" where
  "regions_loop imageDirectory prependPath [] st = st"
| "regions_loop imageDirectory prependPath (img # rest) (outputContent, yOffset) =
     regions_loop imageDirectory prependPath rest
       (outputContent @ region_block imageDirectory prependPath img yOffset,
        yOffset + img_height img)"

section \<open>The two programs\<close>

text \<open>
  What a run reads. \<open>args\<close> is \<^verbatim>\<open>process.argv.slice(2)\<close>, \<open>dirname\<close> is
  \<^verbatim>\<open>__dirname\<close>, \<open>cwd\<close> the working directory of the process. \<open>readdir\<close> gives, for
  the path of a directory, its listing and the listings below it.
\<close>

record env =
  args :: "string list"
  dirname :: string
  cwd :: string
  readdir :: "string \<Rightarrow> readdir_result"
  Jimp_read :: "string \<Rightarrow> error + bitmap"
  Jimp_write :: "string \<Rightarrow> error option"
  writeFile :: "string \<Rightarrow> error option"

text \<open>
  What a run leaves behind: the exit status of the process and the file written, if any.
\<close>

record 'a outcome =
  exit_code :: nat
  written :: "(string \<times> 'a) option"

definition exit_1 :: "'a outcome" where
  "exit_1 = \<lparr>exit_code = 1, written = None\<rparr>"

definition imageDirectory :: "env \<Rightarrow> string" where
  "imageDirectory e = path_join (dirname e) (args e ! 0)"

definition outputFilePath :: "env \<Rightarrow> string" where
  "outputFilePath e = path_join (dirname e) (args e ! 1)"

definition outputImageReferenceName :: "env \<Rightarrow> string" where
  "outputImageReferenceName e =
     path_basename (args e ! 1) (path_extname (args e ! 1)) @ ''.png''"

definition prependPath :: "env \<Rightarrow> string" where
  "prependPath e =
     (if 2 < length (args e) \<and> args e ! 2 \<noteq> []
      then replace_backslashes (args e ! 2) @ ''/'' else [])"

text \<open>
  \<^verbatim>\<open>createSpritesheet\<close>. The outer \<^verbatim>\<open>catch\<close> turns every error into
  \<^verbatim>\<open>process.exit(1)\<close>; a run that returns normally ends with status 0.
\<close>

definition createSpritesheet :: "env \<Rightarrow> spritesheet outcome" where
  "createSpritesheet e =
     (case getImageFilesRecursively (imageDirectory e) (readdir e (imageDirectory e)) of
        Inl err \<Rightarrow> exit_1
      | Inr imageFiles \<Rightarrow>
          if length imageFiles = 0 then \<lparr>exit_code = 0, written = None\<rparr>
          else
            (case load_loop (Jimp_read e) (Array_sort imageFiles) ([], 0, 0) of
               Inl err \<Rightarrow> exit_1
             | Inr (images, maxWidth, totalHeight) \<Rightarrow>
                 let spritesheet = new_Jimp maxWidth totalHeight 0x00000000;
                     (spritesheet, yOffset) = composite_loop images (spritesheet, 0)
                 in (case Jimp_write e (outputFilePath e) of
                       Some err \<Rightarrow> exit_1
                     | None \<Rightarrow>
                         \<lparr>exit_code = 0, written = Some (outputFilePath e, spritesheet)\<rparr>)))"

text \<open>\<^verbatim>\<open>atlas.js\<close> as a whole: the check of the arguments, then the call.\<close>

definition atlas_js :: "env \<Rightarrow> spritesheet outcome" where
  "atlas_js e = (if length (args e) < 2 then exit_1 else createSpritesheet e)"

text \<open>\<^verbatim>\<open>generateAtlasTextFile\<close>.\<close>

definition generateAtlasTextFile :: "env \<Rightarrow> string outcome" where
  "generateAtlasTextFile e =
     (case getImageFilesRecursively (imageDirectory e) (readdir e (imageDirectory e)) of
        Inl err \<Rightarrow> exit_1
      | Inr imageFiles \<Rightarrow>
          if length imageFiles = 0 then \<lparr>exit_code = 0, written = None\<rparr>
          else
            (case dimensions_loop (Jimp_read e) (Array_sort imageFiles) ([], 0, 0) of
               Inl err \<Rightarrow> exit_1
             | Inr (imageData, maxWidth, totalHeight) \<Rightarrow>
                 let outputContent = [] @ header (outputImageReferenceName e) maxWidth totalHeight;
                     (outputContent, yOffset) =
                       regions_loop (imageDirectory e) (prependPath e) imageData (outputContent, 0)
                 in (case writeFile e (outputFilePath e) of
                       Some err \<Rightarrow> exit_1
                     | None \<Rightarrow>
                         \<lparr>exit_code = 0, written = Some (outputFilePath e, outputContent)\<rparr>)))"

text \<open>\<^verbatim>\<open>generate_atlas_text.js\<close> as a whole.\<close>

definition generate_atlas_text_js :: "env \<Rightarrow> string outcome" where
  "generate_atlas_text_js e = (if length (args e) < 2 then exit_1 else generateAtlasTextFile e)"

section \<open>The Layout Engine of the specification\<close>

text \<open>
  Section 4.2 of the specification, in its words, to compare the loops of the two scripts
  with: a running vertical offset and a running maximum width, both starting at 0; each
  image gets a placement with \<open>x = 0\<close> and \<open>y\<close> the current offset, then the offset
  advances by its height and the maximum is updated if the image is wider. The canvas is
  the running maximum by the final offset.
\<close>

record placement =
  place_x :: nat
  place_y :: nat
  place_width :: nat
  place_height :: nat

fun layout_pass :: "nat \<Rightarrow> nat \<Rightarrow> (nat \<times> nat) list \<Rightarrow> placement list \<times> nat \<times> nat" where
  "layout_pass offset running_max [] = ([], running_max, offset)"
| "layout_pass offset running_max ((w, h) # rest) =
     (case layout_pass (offset + h) (if running_max < w then w else running_max) rest of
        (placements, canvas) \<Rightarrow>
          (\<lparr>place_x = 0, place_y = offset, place_width = w, place_height = h\<rparr> # placements,
           canvas))"

definition Layout_Engine :: "(nat \<times> nat) list \<Rightarrow> placement list \<times> nat \<times> nat" where
  "Layout_Engine dims = layout_pass 0 0 dims"

section \<open>The Descriptor Emitter of the specification\<close>

text \<open>
  Section 4.4 of the specification, in its words, to compare the text that
  \<^verbatim>\<open>generate_atlas_text.js\<close> builds with: the document is a sequence of lines; five lines
  of header, then seven lines per region, in the order of the placements.
\<close>

definition lines_text :: "string list \<Rightarrow> string" where
  "lines_text ls = concat (map (\<lambda>l. l @ newline) ls)"

definition region_lines :: "string \<Rightarrow> placement \<Rightarrow> string list" where
  "region_lines region_name pl =
     [region_name,
      ''  rotate: false'',
      ''  xy: '' @ Number_toString (place_x pl) @ '', '' @ Number_toString (place_y pl),
      ''  size: '' @ Number_toString (place_width pl) @ '', '' @ Number_toString (place_height pl),
      ''  orig: '' @ Number_toString (place_width pl) @ '', '' @ Number_toString (place_height pl),
      ''  offset: 0, 0'',
      ''  index: -1'']"

definition Descriptor_Emitter :: "string \<Rightarrow> nat \<Rightarrow> nat \<Rightarrow> (string \<times> placement) list \<Rightarrow> string" where
  "Descriptor_Emitter reference_name canvas_width canvas_height regions =
     lines_text
       ([reference_name,
         ''size: '' @ Number_toString canvas_width @ '', '' @ Number_toString canvas_height,
         ''format: RGBA8888'',
         ''filter: MipMapLinearLinear, MipMapLinearLinear'',
         ''repeat: none'']
        @ concat (map (\<lambda>(region_name, pl). region_lines region_name pl) regions))"

text \<open>
  Reading a descriptor back, to compare its numbers with a layout derived afresh from
  the tree. The reader is given the reference name and the region names it expects; it
  consumes the text from the front and fails (\<open>None\<close>) on the first deviation from the
  format of section 4.4 or on text left over.
\<close>

fun expect :: "string \<Rightarrow> string \<Rightarrow> string option" where
  "expect [] s = Some s"
| "expect (c # cs) [] = None"
| "expect (c # cs) (d # ds) = (if c = d then expect cs ds else None)"

definition is_digit :: "char \<Rightarrow> bool" where
  "is_digit c \<longleftrightarrow> c \<in> set ''0123456789''"

definition digit_value :: "char \<Rightarrow> nat" where
  "digit_value c = length (takeWhile (\<lambda>d. d \<noteq> c) ''0123456789'')"

definition read_number :: "string \<Rightarrow> (nat \<times> string) option" where
  "read_number s =
     (let digits = takeWhile is_digit s in
      if digits = [] then None
      else Some (foldl (\<lambda>n c. 10 * n + digit_value c) 0 digits, dropWhile is_digit s))"

text \<open>A line \<^verbatim>\<open><key><a>, <b>\<close>.\<close>

definition read_pair :: "string \<Rightarrow> string \<Rightarrow> ((nat \<times> nat) \<times> string) option" where
  "read_pair key s =
     (case expect key s of None \<Rightarrow> None | Some s1 \<Rightarrow>
     (case read_number s1 of None \<Rightarrow> None | Some (a, s2) \<Rightarrow>
     (case expect '', '' s2 of None \<Rightarrow> None | Some s3 \<Rightarrow>
     (case read_number s3 of None \<Rightarrow> None | Some (b, s4) \<Rightarrow>
     (case expect newline s4 of None \<Rightarrow> None | Some s5 \<Rightarrow> Some ((a, b), s5))))))"

fun read_regions :: "string list \<Rightarrow> string \<Rightarrow> placement list option" where
  "read_regions [] s = (if s = [] then Some [] else None)"
| "read_regions (region_name # names) s =
     (case expect (region_name @ newline @ ''  rotate: false'' @ newline) s of
        None \<Rightarrow> None | Some s1 \<Rightarrow>
     (case read_pair ''  xy: '' s1 of None \<Rightarrow> None | Some ((x, y), s2) \<Rightarrow>
     (case read_pair ''  size: '' s2 of None \<Rightarrow> None | Some ((w, h), s3) \<Rightarrow>
     (case read_pair ''  orig: '' s3 of None \<Rightarrow> None | Some (orig, s4) \<Rightarrow>
     (case expect (''  offset: 0, 0'' @ newline @ ''  index: -1'' @ newline) s4 of
        None \<Rightarrow> None | Some s5 \<Rightarrow>
     (case read_regions names s5 of None \<Rightarrow> None | Some placements \<Rightarrow>
        if orig = (w, h)
        then Some (\<lparr>place_x = x, place_y = y, place_width = w, place_height = h\<rparr> # placements)
        else None))))))"

definition read_descriptor :: "string \<Rightarrow> string list \<Rightarrow> string \<Rightarrow> (nat \<times> nat \<times> placement list) option" where
  "read_descriptor reference_name names s =
     (case expect (reference_name @ newline) s of None \<Rightarrow> None | Some s1 \<Rightarrow>
     (case read_pair ''size: '' s1 of None \<Rightarrow> None | Some ((canvas_width, canvas_height), s2) \<Rightarrow>
     (case expect (''format: RGBA8888'' @ newline
                   @ ''filter: MipMapLinearLinear, MipMapLinearLinear'' @ newline
                   @ ''repeat: none'' @ newline) s2 of
        None \<Rightarrow> None | Some s3 \<Rightarrow>
     (case read_regions names s3 of None \<Rightarrow> None | Some placements \<Rightarrow>
        Some (canvas_width, canvas_height, placements)))))"



text \<open>Every backslash turned into a forward slash.\<close>

fun forward_slashes :: "string \<Rightarrow> string" where
  "forward_slashes [] = []"
| "forward_slashes (c # cs) = (if c = CHR 0x5C then CHR ''/'' else c) # forward_slashes cs"







text \<open>An absolute path, from its segments.\<close>

definition abs_path :: "string list \<Rightarrow> string" where
  "abs_path segs = CHR ''/'' # join_with ''/'' segs"

section \<open>The pixels of the canvas\<close>









text \<open>
  The running sums of a list of heights from a start: \<open>offsets y [h1, h2, h3]\<close> is
  \<open>[y, y + h1, y + h1 + h2]\<close>. Used to say what the placing loops compute.
\<close>

fun offsets :: "nat \<Rightarrow> nat list \<Rightarrow> nat list" where
  "offsets y [] = []"
| "offsets y (h # hs) = y # offsets (y + h) hs"

section \<open>A scenario\<close>

text \<open>
  The scenario of the specification: below the image directory, \<^verbatim>\<open>a/1.png\<close> of 10 by 20
  and \<^verbatim>\<open>b/2.png\<close> of 30 by 5, and a text file beside the first. The directory \<^verbatim>\<open>b\<close>
  is listed first, so the order of the images is the work of the sort.
\<close>

definition scenario_tree :: readdir_result where
  "scenario_tree =
     Resolved
       [Directory ''b'' (Resolved [Entry ''2.png'' RegularFile]),
        Directory ''a'' (Resolved [Entry ''notes.txt'' RegularFile, Entry ''1.png'' RegularFile])]"

definition scenario_image :: "string \<Rightarrow> bitmap" where
  "scenario_image p =
     (if p = ''/repo/images/a/1.png'' then \<lparr>width = 10, height = 20, data = []\<rparr>
      else \<lparr>width = 30, height = 5, data = []\<rparr>)"

definition scenario_env :: env where
  "scenario_env =
     \<lparr>args = [''../images'', ''atlas.txt'', ''sprites''],
      dirname = ''/repo/scripts'',
      cwd = ''/home'',
      readdir = (\<lambda>p. if p = ''/repo/images'' then scenario_tree else Rejected ''ENOENT''),
      Jimp_read = (\<lambda>p. if p = ''/repo/images/a/1.png'' \<or> p = ''/repo/images/b/2.png''
                         then Inr (scenario_image p) else Inl ''ENOENT''),
      Jimp_write = (\<lambda>p. None),
      writeFile = (\<lambda>p. None)\<rparr>"

text \<open>The same tree for \<^verbatim>\<open>atlas.js\<close>, which takes the name of the image.\<close>

definition scenario_atlas_env :: env where
  "scenario_atlas_env = scenario_env\<lparr>args := [''../images'', ''atlas.png'']\<rparr>"

text \<open>A tree without images: a text file and an empty directory.\<close>

definition imageless_env :: env where
  "imageless_env =
     scenario_env\<lparr>readdir :=
       (\<lambda>p. Resolved [Entry ''notes.txt'' RegularFile, Directory ''empty'' (Resolved [])])\<rparr>"

text \<open>The scenario with a second image that Jimp cannot decode.\<close>

definition corrupt_env :: env where
  "corrupt_env =
     scenario_env\<lparr>Jimp_read :=
       (\<lambda>p. if p = ''/repo/images/a/1.png'' then Inr (scenario_image p)
            else Inl ''Could not find MIME for Buffer'')\<rparr>"

text \<open>
  The scenario started from another working directory, with a file system that differs
  everywhere but at the image directory.
\<close>

definition elsewhere_env :: env where
  "elsewhere_env =
     scenario_env\<lparr>cwd := ''/repo/images/a'',
       readdir := (\<lambda>p. if p = ''/repo/images'' then scenario_tree else Resolved [])\<rparr>"

text \<open>
  A directory with an upper-case extension, a text file, a symbolic link named like an
  image, and a subdirectory named like an image that holds a dot-file and a bitmap.
\<close>

definition mixed_tree :: readdir_result where
  "mixed_tree =
     Resolved
       [Entry ''Photo.JPG'' RegularFile,
        Entry ''notes.txt'' RegularFile,
        Entry ''link.png'' SymbolicLink,
        Directory ''archive.gif''
          (Resolved [Entry ''.png'' RegularFile, Entry ''deep.bmp'' RegularFile])]"

text \<open>The tree of the scenario, enumerated in another order.\<close>

definition scenario_tree_again :: readdir_result where
  "scenario_tree_again =
     Resolved
       [Directory ''a'' (Resolved [Entry ''1.png'' RegularFile, Entry ''notes.txt'' RegularFile]),
        Directory ''b'' (Resolved [Entry ''2.png'' RegularFile])]"








definition scenario_files :: "string list" where
  "scenario_files = [''/repo/images/b/2.png'', ''/repo/images/a/1.png'']"

section \<open>What the loops compute\<close>

lemma Max_insert_max:
  fixes S :: "nat set"
  shows "finite S \<Longrightarrow> Max (insert (max a b) S) = Max (insert a (insert b S))"
  by (cases "S = {}") (simp_all add: max.assoc)

lemma load_loop_all_read:
  "\<forall>p\<in>set files. rd p = Inr (img p) \<Longrightarrow>
   load_loop rd files (acc, mw, th) =
     Inr (acc @ map img files, Max (insert mw ((\<lambda>p. width (img p)) ` set files)),
          th + sum_list (map (\<lambda>p. height (img p)) files))"
proof (induction files arbitrary: acc mw th)
  case Nil
  then show ?case by simp
next
  case (Cons p files)
  have "Max (insert (max mw (width (img p))) ((\<lambda>p. width (img p)) ` set files))
        = Max (insert mw ((\<lambda>p. width (img p)) ` set (p # files)))"
    by (simp add: Max_insert_max del: Max_insert)
  with Cons show ?case
    by (simp add: loadImage_def add.assoc)
qed

lemma dimensions_loop_all_read:
  "\<forall>p\<in>set files. rd p = Inr (img p) \<Longrightarrow>
   dimensions_loop rd files (acc, mw, th) =
     Inr (acc @ map (\<lambda>p. \<lparr>path = p, img_width = width (img p), img_height = height (img p)\<rparr>) files,
          Max (insert mw ((\<lambda>p. width (img p)) ` set files)),
          th + sum_list (map (\<lambda>p. height (img p)) files))"
proof (induction files arbitrary: acc mw th)
  case Nil
  then show ?case by simp
next
  case (Cons p files)
  have "Max (insert (max mw (width (img p))) ((\<lambda>p. width (img p)) ` set files))
        = Max (insert mw ((\<lambda>p. width (img p)) ` set (p # files)))"
    by (simp add: Max_insert_max del: Max_insert)
  with Cons show ?case
    by (simp add: getImageDimensions_def add.assoc)
qed

lemma length_offsets [simp]: "length (offsets y hs) = length hs"
  by (induction hs arbitrary: y) simp_all

lemma offsets_nth: "i < length hs \<Longrightarrow> offsets y hs ! i = y + sum_list (take i hs)"
proof (induction hs arbitrary: y i)
  case Nil
  then show ?case by simp
next
  case (Cons h hs)
  then show ?case by (cases i) simp_all
qed

lemma offsets_Suc:
  assumes "Suc i < length hs"
  shows "offsets y hs ! i + hs ! i = offsets y hs ! Suc i"
proof -
  have "take (Suc i) hs = take i hs @ [hs ! i]"
    using assms by (simp add: take_Suc_conv_app_nth)
  then show ?thesis
    using assms by (simp add: offsets_nth)
qed

lemma sum_list_take_mono:
  fixes hs :: "nat list"
  shows "i \<le> j \<Longrightarrow> sum_list (take i hs) \<le> sum_list (take j hs)"
proof -
  assume "i \<le> j"
  then have "take j hs = take i hs @ take (j - i) (drop i hs)"
    by (metis le_add_diff_inverse take_add)
  then show ?thesis by simp
qed

lemma offsets_below:
  assumes "i < j" and "j < length hs"
  shows "offsets y hs ! i + hs ! i \<le> offsets y hs ! j"
proof -
  have "offsets y hs ! i + hs ! i = offsets y hs ! Suc i"
    using assms by (intro offsets_Suc) simp
  also have "\<dots> = y + sum_list (take (Suc i) hs)"
    using assms by (simp add: offsets_nth del: take_Suc)
  also have "\<dots> \<le> y + sum_list (take j hs)"
    using assms sum_list_take_mono [of "Suc i" j hs] by simp
  also have "\<dots> = offsets y hs ! j"
    using assms by (simp add: offsets_nth)
  finally show ?thesis .
qed

lemma composite_loop_offsets:
  "composite_loop imgs (sheet, y) =
     (sheet\<lparr>composited := composited sheet @ map2 (\<lambda>b v. (b, 0, v)) imgs (offsets y (map height imgs))\<rparr>,
      y + sum_list (map height imgs))"
  by (induction imgs arbitrary: sheet y) (simp_all add: composite_def add.assoc)

lemma regions_loop_offsets:
  "regions_loop d pre imgs (out, y) =
     (out @ concat (map2 (region_block d pre) imgs (offsets y (map img_height imgs))),
      y + sum_list (map img_height imgs))"
  by (induction imgs arbitrary: out y) (simp_all add: add.assoc)

lemma layout_pass_offsets:
  "layout_pass y m dims =
     (map2 (\<lambda>(w, h) v. \<lparr>place_x = 0, place_y = v, place_width = w, place_height = h\<rparr>)
        dims (offsets y (map snd dims)),
      Max (insert m (fst ` set dims)), y + sum_list (map snd dims))"
proof (induction dims arbitrary: y m)
  case Nil
  then show ?case by simp
next
  case (Cons d dims)
  obtain w h where d: "d = (w, h)" by (cases d)
  have "Max (insert (if m < w then w else m) (fst ` set dims)) = Max (insert m (insert w (fst ` set dims)))"
    by (cases "fst ` set dims = {}") (auto simp: max_def)
  with Cons d show ?case by (simp add: add.assoc del: Max_insert)
qed

section \<open>A run in which every image is read\<close>

lemma set_Array_sort [simp]: "set (Array_sort xs) = set xs"
  by (simp add: Array_sort_def)

lemma length_Array_sort [simp]: "length (Array_sort xs) = length xs"
  by (simp add: Array_sort_def)

lemma sum_list_Array_sort:
  fixes f :: "string \<Rightarrow> nat"
  shows "sum_list (map f (Array_sort xs)) = sum_list (map f xs)"
proof -
  have "mset (map f (Array_sort xs)) = mset (map f xs)"
    by (simp add: Array_sort_def)
  then show ?thesis
    by (metis sum_mset_sum_list)
qed

lemma Max_insert_zero:
  fixes S :: "nat set"
  shows "finite S \<Longrightarrow> S \<noteq> {} \<Longrightarrow> Max (insert 0 S) = Max S"
  by simp

lemma createSpritesheet_all_read:
  assumes found: "getImageFilesRecursively (imageDirectory e) (readdir e (imageDirectory e)) = Inr files"
    and nonempty: "files \<noteq> []"
    and reads: "\<forall>p\<in>set files. Jimp_read e p = Inr (img p)"
    and writes: "Jimp_write e (outputFilePath e) = None"
  shows "createSpritesheet e =
     \<lparr>exit_code = 0,
      written = Some (outputFilePath e,
        \<lparr>sheet_width = Max ((\<lambda>p. width (img p)) ` set files),
         sheet_height = sum_list (map (\<lambda>p. height (img p)) files),
         sheet_color = 0,
         composited = map2 (\<lambda>b v. (b, 0, v)) (map img (Array_sort files))
                        (offsets 0 (map (\<lambda>p. height (img p)) (Array_sort files)))\<rparr>)\<rparr>"
proof -
  have r: "\<forall>p\<in>set (Array_sort files). Jimp_read e p = Inr (img p)"
    using reads by simp
  have m: "Max (insert 0 ((\<lambda>p. width (img p)) ` set files)) = Max ((\<lambda>p. width (img p)) ` set files)"
    using nonempty by (intro Max_insert_zero) simp_all
  show ?thesis
    using nonempty writes
    by (simp add: createSpritesheet_def found load_loop_all_read [OF r] m sum_list_Array_sort
        composite_loop_offsets new_Jimp_def comp_def del: Max_insert)
qed

lemma generateAtlasTextFile_all_read:
  assumes found: "getImageFilesRecursively (imageDirectory e) (readdir e (imageDirectory e)) = Inr files"
    and nonempty: "files \<noteq> []"
    and reads: "\<forall>p\<in>set files. Jimp_read e p = Inr (img p)"
    and writes: "writeFile e (outputFilePath e) = None"
  shows "generateAtlasTextFile e =
     \<lparr>exit_code = 0,
      written = Some (outputFilePath e,
        header (outputImageReferenceName e)
          (Max ((\<lambda>p. width (img p)) ` set files)) (sum_list (map (\<lambda>p. height (img p)) files))
        @ concat (map2 (region_block (imageDirectory e) (prependPath e))
            (map (\<lambda>p. \<lparr>path = p, img_width = width (img p), img_height = height (img p)\<rparr>)
               (Array_sort files))
            (offsets 0 (map (\<lambda>p. height (img p)) (Array_sort files)))))\<rparr>"
proof -
  have r: "\<forall>p\<in>set (Array_sort files). Jimp_read e p = Inr (img p)"
    using reads by simp
  have m: "Max (insert 0 ((\<lambda>p. width (img p)) ` set files)) = Max ((\<lambda>p. width (img p)) ` set files)"
    using nonempty by (intro Max_insert_zero) simp_all
  show ?thesis
    using nonempty writes
    by (simp add: generateAtlasTextFile_def found dimensions_loop_all_read [OF r] m sum_list_Array_sort
        regions_loop_offsets comp_def del: Max_insert)
qed

section \<open>The scenario, evaluated\<close>

lemma scenario_imageDirectory: "imageDirectory scenario_env = ''/repo/images''"
  by (simp add: imageDirectory_def scenario_env_def path_join_def path_normalize_def
      normalize_segments_def normalize_step_def)

lemma scenario_outputFilePath: "outputFilePath scenario_env = ''/repo/scripts/atlas.txt''"
  by (simp add: outputFilePath_def scenario_env_def path_join_def path_normalize_def
      normalize_segments_def normalize_step_def)

lemma scenario_discovery:
  "getImageFilesRecursively (imageDirectory scenario_env)
     (readdir scenario_env (imageDirectory scenario_env)) = Inr scenario_files"
  unfolding scenario_imageDirectory
  by (simp add: scenario_env_def scenario_tree_def scenario_files_def path_join_def
      path_normalize_def normalize_segments_def normalize_step_def path_extname_def
      last_component_def lastIndexOf_def toLowerCase_def image_extensions_def)

lemma scenario_reads: "\<forall>p\<in>set scenario_files. Jimp_read scenario_env p = Inr (scenario_image p)"
  by (simp add: scenario_files_def scenario_env_def)

lemma scenario_writes:
  "Jimp_write scenario_env (outputFilePath scenario_env) = None"
  "writeFile scenario_env (outputFilePath scenario_env) = None"
  by (simp_all add: scenario_env_def)

lemma scenario_reference_name: "outputImageReferenceName scenario_env = ''atlas.png''"
  by (simp add: outputImageReferenceName_def scenario_env_def path_basename_def path_extname_def
      last_component_def lastIndexOf_def)

section \<open>The canvas\<close>

text \<open>
  Claim C1. When discovery finds at least one image and every image is read, both
  programs run to the end with status 0; the canvas that \<^verbatim>\<open>atlas.js\<close> allocates and
  the \<^verbatim>\<open>size:\<close> line that \<^verbatim>\<open>generate_atlas_text.js\<close> writes have as width the
  maximum of the widths of the images and as height the sum of their heights.
\<close>

theorem canvas_is_widest_by_total_height:
  assumes "getImageFilesRecursively (imageDirectory e) (readdir e (imageDirectory e)) = Inr files"
    and "files \<noteq> []"
    and "\<forall>p\<in>set files. Jimp_read e p = Inr (img p)"
    and "Jimp_write e (outputFilePath e) = None"
    and "writeFile e (outputFilePath e) = None"
  shows "(\<exists>sheet. createSpritesheet e = \<lparr>exit_code = 0, written = Some (outputFilePath e, sheet)\<rparr>
            \<and> sheet_width sheet = Max ((\<lambda>p. width (img p)) ` set files)
            \<and> sheet_height sheet = sum_list (map (\<lambda>p. height (img p)) files))
       \<and> (\<exists>regions. generateAtlasTextFile e =
            \<lparr>exit_code = 0,
             written = Some (outputFilePath e,
               header (outputImageReferenceName e)
                 (Max ((\<lambda>p. width (img p)) ` set files))
                 (sum_list (map (\<lambda>p. height (img p)) files)) @ regions)\<rparr>)"
  using createSpritesheet_all_read [OF assms(1-4)] generateAtlasTextFile_all_read [OF assms(1-3) assms(5)]
  by simp


text \<open>In the scenario (10 by 20 and 30 by 5) the canvas is 30 by 25.\<close>

theorem canvas_scenario_30_by_25:
  "scenario_files \<noteq> []
   \<and> (\<exists>sheet. createSpritesheet scenario_env =
                 \<lparr>exit_code = 0, written = Some (''/repo/scripts/atlas.txt'', sheet)\<rparr>
          \<and> sheet_width sheet = 30 \<and> sheet_height sheet = 25)
   \<and> (\<exists>regions. generateAtlasTextFile scenario_env =
                 \<lparr>exit_code = 0,
                  written = Some (''/repo/scripts/atlas.txt'', header ''atlas.png'' 30 25 @ regions)\<rparr>)"
proof -
  have ne: "scenario_files \<noteq> []"
    by (simp add: scenario_files_def)
  have w: "Max ((\<lambda>p. width (scenario_image p)) ` set scenario_files) = 30"
    by (simp add: scenario_files_def scenario_image_def)
  have h: "sum_list (map (\<lambda>p. height (scenario_image p)) scenario_files) = 25"
    by (simp add: scenario_files_def scenario_image_def)
  show ?thesis
    using canvas_is_widest_by_total_height
      [OF scenario_discovery ne scenario_reads scenario_writes] ne
    unfolding w h scenario_outputFilePath scenario_reference_name
    by simp
qed

section \<open>Vertical stacking\<close>

text \<open>
  Claim C2, as stated, would have \<open>y\<^sub>i + height\<^sub>i = y\<^sub>j\<close> for every pair \<open>i < j\<close>. With
  three images of height 1 the compositing loop places them at 0, 1 and 2: the first ends
  at 1, the third starts at 2.
\<close>

theorem stacking_not_equal_for_distant_pairs:
  "(0::nat) < 2
   \<and> 2 < length (composited (fst (composite_loop
         (replicate 3 \<lparr>width = 1, height = 1, data = []\<rparr>) (new_Jimp 1 3 0, 0))))
   \<and> snd (snd (composited (fst (composite_loop
         (replicate 3 \<lparr>width = 1, height = 1, data = []\<rparr>) (new_Jimp 1 3 0, 0))) ! 0))
       + height (fst (composited (fst (composite_loop
         (replicate 3 \<lparr>width = 1, height = 1, data = []\<rparr>) (new_Jimp 1 3 0, 0))) ! 0))
     \<noteq> snd (snd (composited (fst (composite_loop
         (replicate 3 \<lparr>width = 1, height = 1, data = []\<rparr>) (new_Jimp 1 3 0, 0))) ! 2))"
  by (simp add: numeral_3_eq_3 new_Jimp_def composite_def)

text \<open>
  Claim C2, amended. Both placing loops put every image at \<open>x = 0\<close> and the first at
  \<open>y = 0\<close>; each image starts where the one before it ends (\<open>y\<^sub>i + height\<^sub>i = y\<^sub>i\<^sub>+\<^sub>1\<close>),
  and an earlier image ends at or above the start of every later one
  (\<open>y\<^sub>i + height\<^sub>i \<le> y\<^sub>j\<close> for \<open>i < j\<close>). In \<^verbatim>\<open>atlas.js\<close> the placements are the
  arguments of \<^verbatim>\<open>composite\<close>; in \<^verbatim>\<open>generate_atlas_text.js\<close> they are the offsets
  \<open>ys\<close> printed in the region blocks.
\<close>

theorem placements_stack_contiguously:
  "(\<exists>ys. length ys = length images
        \<and> composited (fst (composite_loop images (new_Jimp w h c, 0)))
            = map2 (\<lambda>b v. (b, 0, v)) images ys
        \<and> (ys \<noteq> [] \<longrightarrow> ys ! 0 = 0)
        \<and> (\<forall>i. Suc i < length ys \<longrightarrow> ys ! i + height (images ! i) = ys ! Suc i)
        \<and> (\<forall>i j. i < j \<and> j < length ys \<longrightarrow> ys ! i + height (images ! i) \<le> ys ! j))
   \<and> (\<exists>ys. length ys = length imageData
        \<and> fst (regions_loop dir pre imageData ([], 0))
            = concat (map2 (region_block dir pre) imageData ys)
        \<and> (ys \<noteq> [] \<longrightarrow> ys ! 0 = 0)
        \<and> (\<forall>i. Suc i < length ys \<longrightarrow> ys ! i + img_height (imageData ! i) = ys ! Suc i)
        \<and> (\<forall>i j. i < j \<and> j < length ys \<longrightarrow> ys ! i + img_height (imageData ! i) \<le> ys ! j))"
proof (intro conjI)
  let ?hs = "map height images"
  let ?ys = "offsets 0 ?hs"
  have "length ?ys = length images" by simp
  moreover have "composited (fst (composite_loop images (new_Jimp w h c, 0)))
      = map2 (\<lambda>b v. (b, 0, v)) images ?ys"
    by (simp add: composite_loop_offsets new_Jimp_def)
  moreover have "?ys \<noteq> [] \<longrightarrow> ?ys ! 0 = 0"
    by (cases images) simp_all
  moreover have "\<forall>i. Suc i < length ?ys \<longrightarrow> ?ys ! i + height (images ! i) = ?ys ! Suc i"
    using offsets_Suc [of _ ?hs 0] by simp
  moreover have "\<forall>i j. i < j \<and> j < length ?ys \<longrightarrow> ?ys ! i + height (images ! i) \<le> ?ys ! j"
    using offsets_below [of _ _ ?hs 0] by simp
  ultimately show "\<exists>ys. length ys = length images
        \<and> composited (fst (composite_loop images (new_Jimp w h c, 0)))
            = map2 (\<lambda>b v. (b, 0, v)) images ys
        \<and> (ys \<noteq> [] \<longrightarrow> ys ! 0 = 0)
        \<and> (\<forall>i. Suc i < length ys \<longrightarrow> ys ! i + height (images ! i) = ys ! Suc i)
        \<and> (\<forall>i j. i < j \<and> j < length ys \<longrightarrow> ys ! i + height (images ! i) \<le> ys ! j)"
    by blast
next
  let ?hs = "map img_height imageData"
  let ?ys = "offsets 0 ?hs"
  have "length ?ys = length imageData" by simp
  moreover have "fst (regions_loop dir pre imageData ([], 0))
      = concat (map2 (region_block dir pre) imageData ?ys)"
    by (simp add: regions_loop_offsets)
  moreover have "?ys \<noteq> [] \<longrightarrow> ?ys ! 0 = 0"
    by (cases imageData) simp_all
  moreover have "\<forall>i. Suc i < length ?ys \<longrightarrow> ?ys ! i + img_height (imageData ! i) = ?ys ! Suc i"
    using offsets_Suc [of _ ?hs 0] by simp
  moreover have "\<forall>i j. i < j \<and> j < length ?ys \<longrightarrow> ?ys ! i + img_height (imageData ! i) \<le> ?ys ! j"
    using offsets_below [of _ _ ?hs 0] by simp
  ultimately show "\<exists>ys. length ys = length imageData
        \<and> fst (regions_loop dir pre imageData ([], 0))
            = concat (map2 (region_block dir pre) imageData ys)
        \<and> (ys \<noteq> [] \<longrightarrow> ys ! 0 = 0)
        \<and> (\<forall>i. Suc i < length ys \<longrightarrow> ys ! i + img_height (imageData ! i) = ys ! Suc i)
        \<and> (\<forall>i j. i < j \<and> j < length ys \<longrightarrow> ys ! i + img_height (imageData ! i) \<le> ys ! j)"
    by blast
qed


text \<open>
  The two images of the scenario: from the theorem alone, the second is placed at
  \<open>(0, 20)\<close> by both loops.
\<close>

theorem placements_of_scenario:
  "composited (fst (composite_loop
       [\<lparr>width = 10, height = 20, data = []\<rparr>, \<lparr>width = 30, height = 5, data = []\<rparr>]
       (new_Jimp 30 25 0, 0)))
     = [(\<lparr>width = 10, height = 20, data = []\<rparr>, 0, 0),
        (\<lparr>width = 30, height = 5, data = []\<rparr>, 0, 20)]
   \<and> fst (regions_loop ''/repo/images'' ''sprites/''
       [\<lparr>path = ''/repo/images/a/1.png'', img_width = 10, img_height = 20\<rparr>,
        \<lparr>path = ''/repo/images/b/2.png'', img_width = 30, img_height = 5\<rparr>] ([], 0))
     = region_block ''/repo/images'' ''sprites/''
         \<lparr>path = ''/repo/images/a/1.png'', img_width = 10, img_height = 20\<rparr> 0
       @ region_block ''/repo/images'' ''sprites/''
         \<lparr>path = ''/repo/images/b/2.png'', img_width = 30, img_height = 5\<rparr> 20"
proof -
  let ?b1 = "\<lparr>width = 10, height = 20, data = []\<rparr>"
  let ?b2 = "\<lparr>width = 30, height = 5, data = []\<rparr>"
  let ?i1 = "\<lparr>path = ''/repo/images/a/1.png'', img_width = 10, img_height = 20\<rparr>"
  let ?i2 = "\<lparr>path = ''/repo/images/b/2.png'', img_width = 30, img_height = 5\<rparr>"
  have two: "ys = [ys ! 0, ys ! Suc 0]" if "length ys = 2" for ys :: "nat list"
    using that by (cases ys; cases "tl ys") auto
  note inst = placements_stack_contiguously
    [of "[?b1, ?b2]" 30 25 0 "[?i1, ?i2]" "''/repo/images''" "''sprites/''"]
  from inst [THEN conjunct1] obtain ys where
    ys: "length ys = length [?b1, ?b2]"
      "composited (fst (composite_loop [?b1, ?b2] (new_Jimp 30 25 0, 0)))
         = map2 (\<lambda>b v. (b, 0, v)) [?b1, ?b2] ys"
      "ys \<noteq> [] \<longrightarrow> ys ! 0 = 0"
      "\<forall>i. Suc i < length ys \<longrightarrow> ys ! i + height ([?b1, ?b2] ! i) = ys ! Suc i"
    by blast
  from inst [THEN conjunct2] obtain zs where
    zs: "length zs = length [?i1, ?i2]"
      "fst (regions_loop ''/repo/images'' ''sprites/'' [?i1, ?i2] ([], 0))
         = concat (map2 (region_block ''/repo/images'' ''sprites/'') [?i1, ?i2] zs)"
      "zs \<noteq> [] \<longrightarrow> zs ! 0 = 0"
      "\<forall>i. Suc i < length zs \<longrightarrow> zs ! i + img_height ([?i1, ?i2] ! i) = zs ! Suc i"
    by blast
  have ly: "length ys = 2" and lz: "length zs = 2"
    using ys(1) zs(1) by simp_all
  have "ys ! 0 = 0" "ys ! 0 + 20 = ys ! Suc 0"
    using ly ys(3) ys(4) [rule_format, of 0] by auto
  then have "ys = [0, 20]"
    using two [OF ly] by simp
  moreover have "zs ! 0 = 0" "zs ! 0 + 20 = zs ! Suc 0"
    using lz zs(3) zs(4) [rule_format, of 0] by auto
  then have "zs = [0, 20]"
    using two [OF lz] by simp
  ultimately show ?thesis
    using ys(2) zs(2) by simp
qed

section \<open>One layout for both artifacts\<close>

lemma scenario_atlas_imageDirectory: "imageDirectory scenario_atlas_env = ''/repo/images''"
  by (simp add: imageDirectory_def scenario_atlas_env_def scenario_env_def path_join_def
      path_normalize_def normalize_segments_def normalize_step_def)

lemma scenario_atlas_outputFilePath: "outputFilePath scenario_atlas_env = ''/repo/scripts/atlas.png''"
  by (simp add: outputFilePath_def scenario_atlas_env_def scenario_env_def path_join_def
      path_normalize_def normalize_segments_def normalize_step_def)

lemma scenario_atlas_discovery:
  "getImageFilesRecursively (imageDirectory scenario_atlas_env)
     (readdir scenario_atlas_env (imageDirectory scenario_atlas_env)) = Inr scenario_files"
  unfolding scenario_atlas_imageDirectory
  by (simp add: scenario_atlas_env_def scenario_env_def scenario_tree_def scenario_files_def
      path_join_def path_normalize_def normalize_segments_def normalize_step_def path_extname_def
      last_component_def lastIndexOf_def toLowerCase_def image_extensions_def)

lemma scenario_sorted:
  "Array_sort scenario_files = [''/repo/images/a/1.png'', ''/repo/images/b/2.png'']"
  by (simp add: Array_sort_def scenario_files_def)

lemma scenario_prependPath: "prependPath scenario_env = ''sprites/''"
  by (simp add: prependPath_def scenario_env_def replace_backslashes_def)

lemma layout_pass_canvas:
  "snd (layout_pass y m (map (\<lambda>p. (width (img p), height (img p))) ps))
     = (Max (insert m ((\<lambda>p. width (img p)) ` set ps)), y + sum_list (map (\<lambda>p. height (img p)) ps))"
  by (simp add: layout_pass_offsets image_image comp_def del: Max_insert)

lemma layout_pass_composited:
  "map2 (\<lambda>p pl. (img p, place_x pl, place_y pl)) ps
       (fst (layout_pass y m (map (\<lambda>p. (width (img p), height (img p))) ps)))
     = map2 (\<lambda>b v. (b, 0, v)) (map img ps) (offsets y (map (\<lambda>p. height (img p)) ps))"
  unfolding layout_pass_offsets fst_conv
  by (induction ps arbitrary: y) simp_all

lemma layout_pass_regions:
  "map2 (\<lambda>p pl. region_block d pre
            \<lparr>path = p, img_width = place_width pl, img_height = place_height pl\<rparr> (place_y pl)) ps
       (fst (layout_pass y m (map (\<lambda>p. (width (img p), height (img p))) ps)))
     = map2 (region_block d pre)
         (map (\<lambda>p. \<lparr>path = p, img_width = width (img p), img_height = height (img p)\<rparr>) ps)
         (offsets y (map (\<lambda>p. height (img p)) ps))"
  unfolding layout_pass_offsets fst_conv
  by (induction ps arbitrary: y) simp_all

lemma layout_pass_x: "\<forall>pl\<in>set (fst (layout_pass y m dims)). place_x pl = 0"
  unfolding layout_pass_offsets fst_conv
  by (auto simp: set_zip split: prod.splits)

section \<open>Runs that write nothing\<close>

lemma load_loop_fails:
  "p \<in> set files \<Longrightarrow> rd p = Inl msg \<Longrightarrow> \<exists>err. load_loop rd files st = Inl err"
proof (induction files arbitrary: st)
  case Nil
  then show ?case by simp
next
  case (Cons q files)
  obtain images mw th where st: "st = (images, mw, th)"
    by (cases st)
  show ?case
  proof (cases "rd q")
    case (Inl e)
    then show ?thesis by (simp add: st loadImage_def)
  next
    case (Inr b)
    with Cons.prems have "p \<in> set files" by auto
    from Cons.IH [OF this Cons.prems(2)] Inr show ?thesis
      by (simp add: st loadImage_def)
  qed
qed

lemma dimensions_loop_fails:
  "p \<in> set files \<Longrightarrow> rd p = Inl msg \<Longrightarrow> \<exists>err. dimensions_loop rd files st = Inl err"
proof (induction files arbitrary: st)
  case Nil
  then show ?case by simp
next
  case (Cons q files)
  obtain imageData mw th where st: "st = (imageData, mw, th)"
    by (cases st)
  show ?case
  proof (cases "rd q")
    case (Inl e)
    then show ?thesis by (simp add: st getImageDimensions_def)
  next
    case (Inr b)
    with Cons.prems have "p \<in> set files" by auto
    from Cons.IH [OF this Cons.prems(2)] Inr show ?thesis
      by (simp add: st getImageDimensions_def)
  qed
qed

lemma createSpritesheet_written_exit_0:
  "written (createSpritesheet e) \<noteq> None \<Longrightarrow> exit_code (createSpritesheet e) = 0"
  by (auto simp: createSpritesheet_def exit_1_def Let_def split: sum.splits if_splits prod.splits option.splits)

lemma generateAtlasTextFile_written_exit_0:
  "written (generateAtlasTextFile e) \<noteq> None \<Longrightarrow> exit_code (generateAtlasTextFile e) = 0"
  by (auto simp: generateAtlasTextFile_def exit_1_def Let_def split: sum.splits if_splits prod.splits option.splits)

text \<open>
  Claim C6. When discovery finds no image, both programs end with status 0 and write no
  file.
\<close>

theorem no_images_no_output:
  assumes "2 \<le> length (args e)"
    and "getImageFilesRecursively (imageDirectory e) (readdir e (imageDirectory e)) = Inr []"
  shows "atlas_js e = \<lparr>exit_code = 0, written = None\<rparr>
       \<and> generate_atlas_text_js e = \<lparr>exit_code = 0, written = None\<rparr>"
  using assms
  by (simp add: atlas_js_def generate_atlas_text_js_def createSpritesheet_def
      generateAtlasTextFile_def)

lemma imageless_discovery:
  "getImageFilesRecursively (imageDirectory imageless_env)
     (readdir imageless_env (imageDirectory imageless_env)) = Inr []"
  by (simp add: imageless_env_def scenario_env_def path_join_def
      path_normalize_def normalize_segments_def normalize_step_def path_extname_def
      last_component_def lastIndexOf_def toLowerCase_def image_extensions_def)

text \<open>A directory with a text file and an empty subdirectory.\<close>

theorem no_images_witness:
  "atlas_js imageless_env = \<lparr>exit_code = 0, written = None\<rparr>
   \<and> generate_atlas_text_js imageless_env = \<lparr>exit_code = 0, written = None\<rparr>"
proof -
  have "2 \<le> length (args imageless_env)"
    by (simp add: imageless_env_def scenario_env_def)
  from no_images_no_output [OF this imageless_discovery] show ?thesis .
qed

text \<open>
  Claim C7. When \<^verbatim>\<open>Jimp.read\<close> fails on one of the discovered images, both programs
  end with status 1 and write no file. A run that writes its file ends with status 0.
\<close>

theorem unreadable_image_aborts:
  assumes "2 \<le> length (args e)"
    and "getImageFilesRecursively (imageDirectory e) (readdir e (imageDirectory e)) = Inr files"
  shows "((\<exists>p\<in>set files. \<exists>msg. Jimp_read e p = Inl msg) \<longrightarrow>
            atlas_js e = \<lparr>exit_code = 1, written = None\<rparr>
          \<and> generate_atlas_text_js e = \<lparr>exit_code = 1, written = None\<rparr>)
       \<and> (written (atlas_js e) \<noteq> None \<longrightarrow> exit_code (atlas_js e) = 0)
       \<and> (written (generate_atlas_text_js e) \<noteq> None \<longrightarrow>
            exit_code (generate_atlas_text_js e) = 0)"
proof (intro conjI impI)
  assume "\<exists>p\<in>set files. \<exists>msg. Jimp_read e p = Inl msg"
  then obtain p msg where p: "p \<in> set (Array_sort files)" "Jimp_read e p = Inl msg"
    by auto
  then have ne: "files \<noteq> []" by auto
  from load_loop_fails [of p "Array_sort files" "Jimp_read e" msg "([], 0, 0)"] p obtain err where
    "load_loop (Jimp_read e) (Array_sort files) ([], 0, 0) = Inl err" by blast
  then show "atlas_js e = \<lparr>exit_code = 1, written = None\<rparr>"
    using assms ne by (simp add: atlas_js_def createSpritesheet_def exit_1_def)
  from dimensions_loop_fails [of p "Array_sort files" "Jimp_read e" msg "([], 0, 0)"] p
  obtain err' where
    "dimensions_loop (Jimp_read e) (Array_sort files) ([], 0, 0) = Inl err'" by blast
  then show "generate_atlas_text_js e = \<lparr>exit_code = 1, written = None\<rparr>"
    using assms ne by (simp add: generate_atlas_text_js_def generateAtlasTextFile_def exit_1_def)
next
  assume "written (atlas_js e) \<noteq> None"
  then show "exit_code (atlas_js e) = 0"
    using assms(1) createSpritesheet_written_exit_0 [of e] by (simp add: atlas_js_def)
next
  assume "written (generate_atlas_text_js e) \<noteq> None"
  then show "exit_code (generate_atlas_text_js e) = 0"
    using assms(1) generateAtlasTextFile_written_exit_0 [of e]
    by (simp add: generate_atlas_text_js_def)
qed

lemma corrupt_discovery:
  "getImageFilesRecursively (imageDirectory corrupt_env)
     (readdir corrupt_env (imageDirectory corrupt_env)) = Inr scenario_files"
  by (simp add: imageDirectory_def corrupt_env_def scenario_env_def scenario_tree_def
      scenario_files_def path_join_def
      path_normalize_def normalize_segments_def normalize_step_def path_extname_def
      last_component_def lastIndexOf_def toLowerCase_def image_extensions_def)

text \<open>The scenario with an undecodable \<^verbatim>\<open>b/2.png\<close>: status 1, nothing written.\<close>

theorem unreadable_image_witness:
  "''/repo/images/b/2.png'' \<in> set scenario_files
   \<and> Jimp_read corrupt_env ''/repo/images/b/2.png'' = Inl ''Could not find MIME for Buffer''
   \<and> atlas_js corrupt_env = \<lparr>exit_code = 1, written = None\<rparr>
   \<and> generate_atlas_text_js corrupt_env = \<lparr>exit_code = 1, written = None\<rparr>"
proof -
  have a: "2 \<le> length (args corrupt_env)"
    by (simp add: corrupt_env_def scenario_env_def)
  have m: "''/repo/images/b/2.png'' \<in> set scenario_files"
    by (simp add: scenario_files_def)
  have r: "Jimp_read corrupt_env ''/repo/images/b/2.png'' = Inl ''Could not find MIME for Buffer''"
    by (simp add: corrupt_env_def)
  from m r have "\<exists>p\<in>set scenario_files. \<exists>msg. Jimp_read corrupt_env p = Inl msg"
    by blast
  with unreadable_image_aborts [OF a corrupt_discovery] m r show ?thesis
    by blast
qed


section \<open>Paths are taken from the directory of the script\<close>

text \<open>
  Claim C10. Both programs read the directory \<^verbatim>\<open>path.join(__dirname, args[0])\<close> and
  write the file \<^verbatim>\<open>path.join(__dirname, args[1])\<close>. Two runs with the same arguments
  and the same script directory, which agree on the listing of that directory, on the
  images and on whether that file can be written, have the same outcome, whatever their
  working directories and whatever else differs in their file systems.
\<close>

theorem paths_independent_of_working_directory:
  assumes "args e2 = args e1" and "dirname e2 = dirname e1"
    and "readdir e2 (path_join (dirname e1) (args e1 ! 0))
           = readdir e1 (path_join (dirname e1) (args e1 ! 0))"
    and "Jimp_read e2 = Jimp_read e1"
    and "Jimp_write e2 (path_join (dirname e1) (args e1 ! 1))
           = Jimp_write e1 (path_join (dirname e1) (args e1 ! 1))"
    and "writeFile e2 (path_join (dirname e1) (args e1 ! 1))
           = writeFile e1 (path_join (dirname e1) (args e1 ! 1))"
  shows "atlas_js e2 = atlas_js e1
       \<and> generate_atlas_text_js e2 = generate_atlas_text_js e1
       \<and> (\<forall>f sheet. written (atlas_js e1) = Some (f, sheet) \<longrightarrow>
             f = path_join (dirname e1) (args e1 ! 1))
       \<and> (\<forall>f content. written (generate_atlas_text_js e1) = Some (f, content) \<longrightarrow>
             f = path_join (dirname e1) (args e1 ! 1))"
proof (intro conjI allI impI)
  have d: "imageDirectory e2 = imageDirectory e1" "outputFilePath e2 = outputFilePath e1"
    "outputImageReferenceName e2 = outputImageReferenceName e1" "prependPath e2 = prependPath e1"
    using assms(1,2)
    by (simp_all add: imageDirectory_def outputFilePath_def outputImageReferenceName_def
        prependPath_def)
  have r: "readdir e2 (imageDirectory e1) = readdir e1 (imageDirectory e1)"
    using assms(3) by (simp add: imageDirectory_def)
  have w: "Jimp_write e2 (outputFilePath e1) = Jimp_write e1 (outputFilePath e1)"
    "writeFile e2 (outputFilePath e1) = writeFile e1 (outputFilePath e1)"
    using assms(5,6) by (simp_all add: outputFilePath_def)
  show "atlas_js e2 = atlas_js e1"
    unfolding atlas_js_def createSpritesheet_def d r w assms(1) assms(4) ..
  show "generate_atlas_text_js e2 = generate_atlas_text_js e1"
    unfolding generate_atlas_text_js_def generateAtlasTextFile_def d r w assms(1) assms(4) ..
next
  fix f sheet
  assume "written (atlas_js e1) = Some (f, sheet)"
  then show "f = path_join (dirname e1) (args e1 ! 1)"
    by (auto simp: atlas_js_def createSpritesheet_def exit_1_def outputFilePath_def Let_def
        split: if_splits sum.splits prod.splits option.splits)
next
  fix f content
  assume "written (generate_atlas_text_js e1) = Some (f, content)"
  then show "f = path_join (dirname e1) (args e1 ! 1)"
    by (auto simp: generate_atlas_text_js_def generateAtlasTextFile_def exit_1_def
        outputFilePath_def Let_def split: if_splits sum.splits prod.splits option.splits)
qed

text \<open>
  The scenario run from \<^verbatim>\<open>/repo/images/a\<close> instead of \<^verbatim>\<open>/home\<close>: the same outcome,
  and the descriptor is written beside the script.
\<close>

theorem working_directory_witness:
  "cwd elsewhere_env \<noteq> cwd scenario_env
   \<and> atlas_js elsewhere_env = atlas_js scenario_env
   \<and> generate_atlas_text_js elsewhere_env = generate_atlas_text_js scenario_env
   \<and> (\<exists>content. written (generate_atlas_text_js scenario_env)
                    = Some (''/repo/scripts/atlas.txt'', content))"
proof -
  have c: "cwd elsewhere_env \<noteq> cwd scenario_env"
    by (simp add: elsewhere_env_def scenario_env_def)
  have j: "path_join (dirname scenario_env) (args scenario_env ! 0) = ''/repo/images''"
    using scenario_imageDirectory by (simp add: imageDirectory_def)
  have k: "path_join (dirname scenario_env) (args scenario_env ! 1) = ''/repo/scripts/atlas.txt''"
    using scenario_outputFilePath by (simp add: outputFilePath_def)
  have same: "args elsewhere_env = args scenario_env" "dirname elsewhere_env = dirname scenario_env"
    "readdir elsewhere_env (path_join (dirname scenario_env) (args scenario_env ! 0))
       = readdir scenario_env (path_join (dirname scenario_env) (args scenario_env ! 0))"
    "Jimp_read elsewhere_env = Jimp_read scenario_env"
    "Jimp_write elsewhere_env (path_join (dirname scenario_env) (args scenario_env ! 1))
       = Jimp_write scenario_env (path_join (dirname scenario_env) (args scenario_env ! 1))"
    "writeFile elsewhere_env (path_join (dirname scenario_env) (args scenario_env ! 1))
       = writeFile scenario_env (path_join (dirname scenario_env) (args scenario_env ! 1))"
    unfolding j k by (simp_all add: elsewhere_env_def scenario_env_def)
  note inst = paths_independent_of_working_directory [OF same]
  have "2 \<le> length (args scenario_env)"
    by (simp add: scenario_env_def)
  then obtain f content where
    wr: "written (generate_atlas_text_js scenario_env) = Some (f, content)"
    using generateAtlasTextFile_all_read
      [OF scenario_discovery _ scenario_reads scenario_writes(2)]
    by (simp add: generate_atlas_text_js_def scenario_files_def)
  with inst have "f = ''/repo/scripts/atlas.txt''"
    unfolding k by blast
  with wr c inst show ?thesis
    by blast
qed

section \<open>What discovery returns\<close>

lemma Promise_all_map_Inr: "Promise_all (map Inr xs) = Inr xs"
  by (induction xs) simp_all

lemma Promise_all_Inl: "Inl e \<in> set ps \<Longrightarrow> \<exists>e'. Promise_all ps = Inl e'"
proof (induction ps)
  case Nil
  then show ?case by simp
next
  case (Cons p ps)
  show ?case
  proof (cases p)
    case (Inl a)
    then show ?thesis by simp
  next
    case (Inr b)
    with Cons obtain e' where "Promise_all ps = Inl e'" by auto
    with Inr show ?thesis by simp
  qed
qed

lemma lies_below_Rejected: "\<not> lies_below dir (Rejected e) p n k"
  by (auto elim: lies_below.cases)

lemma lies_below_Resolved:
  "lies_below dir (Resolved entries) p n k \<longleftrightarrow>
     (Entry n k \<in> set entries \<and> p = path_join dir n)
     \<or> (\<exists>d sub. Directory d sub \<in> set entries \<and> lies_below (path_join dir d) sub p n k)"
  by (auto elim: lies_below.cases intro: lies_below.intros)

lemma discovery_characterised:
  "(listable listing \<longrightarrow>
      (\<exists>files. getImageFilesRecursively dir listing = Inr files
         \<and> set files = {p. \<exists>n k. lies_below dir listing p n k
                           \<and> toLowerCase (path_extname n) \<in> set image_extensions}))
   \<and> (\<not> listable listing \<longrightarrow> (\<exists>e. getImageFilesRecursively dir listing = Inl e))"
proof (induction dir listing rule: getImageFilesRecursively.induct)
  case (1 dir e)
  show ?case by simp
next
  case (2 dir entries)
  let ?img = "\<lambda>n. toLowerCase (path_extname n) \<in> set image_extensions"
  let ?S = "\<lambda>d l. {p. \<exists>n k. lies_below d l p n k \<and> ?img n}"
  define f where "f = (\<lambda>entry.
           let fullPath = path_join dir (name entry) in
           (case entry of
              Directory n sub \<Rightarrow> getImageFilesRecursively fullPath sub
            | Entry n k \<Rightarrow>
                (let ext = toLowerCase (path_extname n) in
                 if ext \<in> set image_extensions then Inr [fullPath] else Inr []))
           :: error + string list)"
  have f_Entry: "f (Entry n k) = (if ?img n then Inr [path_join dir n] else Inr [])" for n k
    by (simp add: f_def)
  have f_Directory: "f (Directory d sub) = getImageFilesRecursively (path_join dir d) sub" for d sub
    by (simp add: f_def)
  have get: "getImageFilesRecursively dir (Resolved entries) =
      (case Promise_all (map f entries) of Inl e \<Rightarrow> Inl e | Inr files \<Rightarrow> Inr (concat files))"
    unfolding f_def by (rule getImageFilesRecursively.simps(2))
  have IH: "(listable sub \<longrightarrow>
        (\<exists>files. getImageFilesRecursively (path_join dir d) sub = Inr files
           \<and> set files = ?S (path_join dir d) sub))
      \<and> (\<not> listable sub \<longrightarrow> (\<exists>e. getImageFilesRecursively (path_join dir d) sub = Inl e))"
    if "Directory d sub \<in> set entries" for d sub
  proof -
    have "path_join dir d = path_join dir (name (Directory d sub))" by simp
    from "2.IH" [OF that this refl] show ?thesis .
  qed
  show ?case
  proof (intro conjI impI)
    assume ok: "listable (Resolved entries)"
    define S1 where "S1 entry =
        (case entry of Entry n k \<Rightarrow> (if ?img n then {path_join dir n} else {})
         | Directory d sub \<Rightarrow> ?S (path_join dir d) sub)" for entry
    have each: "\<exists>fs. f entry = Inr fs \<and> set fs = S1 entry" if "entry \<in> set entries" for entry
    proof (cases entry)
      case (Entry n k)
      then show ?thesis by (simp add: S1_def f_Entry)
    next
      case (Directory d sub)
      with that have mem: "Directory d sub \<in> set entries" by simp
      with ok have "listable sub" by auto
      with IH [OF mem] obtain files where
        "getImageFilesRecursively (path_join dir d) sub = Inr files"
        "set files = ?S (path_join dir d) sub"
        by blast
      then have "f entry = Inr files \<and> set files = S1 entry"
        unfolding Directory by (simp add: S1_def f_Directory)
      then show ?thesis ..
    qed
    define g where "g entry = projr (f entry)" for entry
    have g: "f entry = Inr (g entry)" "set (g entry) = S1 entry" if "entry \<in> set entries" for entry
    proof -
      from each [OF that] obtain fs where fs: "f entry = Inr fs" "set fs = S1 entry"
        by blast
      then have "g entry = fs"
        by (simp add: g_def)
      with fs show "f entry = Inr (g entry)" "set (g entry) = S1 entry"
        by simp_all
    qed
    have "map f entries = map (\<lambda>entry. Inr (g entry)) entries"
      by (rule map_cong [OF refl]) (rule g(1))
    then have "map f entries = map Inr (map g entries)"
      by (simp only: map_map comp_def)
    then have "Promise_all (map f entries) = Inr (map g entries)"
      by (simp only: Promise_all_map_Inr)
    then have res: "getImageFilesRecursively dir (Resolved entries) = Inr (concat (map g entries))"
      by (simp only: get sum.case)
    have "set (concat (map g entries)) = (\<Union>entry\<in>set entries. set (g entry))"
      by simp
    also have "\<dots> = (\<Union>entry\<in>set entries. S1 entry)"
      using g(2) by (intro SUP_cong refl)
    also have "\<dots> = ?S dir (Resolved entries)"
    proof (intro set_eqI iffI)
      fix p assume "p \<in> (\<Union>entry\<in>set entries. S1 entry)"
      then obtain entry where e: "entry \<in> set entries" "p \<in> S1 entry" by blast
      show "p \<in> ?S dir (Resolved entries)"
      proof (cases entry)
        case (Entry n k)
        with e have "?img n" "p = path_join dir n"
          by (auto simp: S1_def split: if_splits)
        moreover from e(1) Entry have "lies_below dir (Resolved entries) (path_join dir n) n k"
          by (intro lies_below.here) simp
        ultimately show ?thesis by blast
      next
        case (Directory d sub)
        with e obtain n k where nk: "lies_below (path_join dir d) sub p n k" "?img n"
          by (auto simp: S1_def)
        from e(1) Directory nk(1) have "lies_below dir (Resolved entries) p n k"
          by (intro lies_below.deeper [of d sub]) simp_all
        with nk(2) show ?thesis by blast
      qed
    next
      fix p assume "p \<in> ?S dir (Resolved entries)"
      then obtain n k where nk: "lies_below dir (Resolved entries) p n k" "?img n" by blast
      from nk(1) consider "Entry n k \<in> set entries" "p = path_join dir n"
        | d sub where "Directory d sub \<in> set entries" "lies_below (path_join dir d) sub p n k"
        unfolding lies_below_Resolved by blast
      then show "p \<in> (\<Union>entry\<in>set entries. S1 entry)"
      proof cases
        case 1
        with nk(2) have "p \<in> S1 (Entry n k)" by (simp add: S1_def)
        with 1 show ?thesis by blast
      next
        case 2
        with nk(2) have "p \<in> S1 (Directory d sub)" by (auto simp: S1_def)
        with 2 show ?thesis by blast
      qed
    qed
    finally show "\<exists>files. getImageFilesRecursively dir (Resolved entries) = Inr files
         \<and> set files = ?S dir (Resolved entries)"
      using res by blast
  next
    assume "\<not> listable (Resolved entries)"
    then obtain entry where entry: "entry \<in> set entries"
      "\<not> (case entry of Entry n k \<Rightarrow> True | Directory n sub \<Rightarrow> listable sub)"
      by auto
    then obtain d sub where d: "Directory d sub \<in> set entries" "\<not> listable sub"
      by (cases entry rule: dirent.exhaust) auto
    with IH obtain e where "getImageFilesRecursively (path_join dir d) sub = Inl e"
      by blast
    then have "f (Directory d sub) = Inl e"
      by (simp only: f_Directory)
    moreover have "f (Directory d sub) \<in> f ` set entries"
      using d(1) by (rule imageI)
    ultimately have "Inl e \<in> set (map f entries)"
      by (simp only: set_map)
    from Promise_all_Inl [OF this] obtain e' where "Promise_all (map f entries) = Inl e'" ..
    then have "getImageFilesRecursively dir (Resolved entries) = Inl e'"
      by (simp only: get sum.case)
    then show "\<exists>e. getImageFilesRecursively dir (Resolved entries) = Inl e" ..
  qed
qed

lemma join_plain:
  "path_join ''/repo/images'' ''link.png'' = ''/repo/images/link.png''"
  "path_join ''/repo/images'' ''archive.gif'' = ''/repo/images/archive.gif''"
  "path_join ''/repo/images/archive.gif'' ''deep.bmp'' = ''/repo/images/archive.gif/deep.bmp''"
  by (simp_all add: path_join_def path_normalize_def normalize_segments_def normalize_step_def)

lemma mixed_discovery:
  "getImageFilesRecursively ''/repo/images'' mixed_tree =
     Inr [''/repo/images/Photo.JPG'', ''/repo/images/link.png'',
          ''/repo/images/archive.gif/deep.bmp'']"
  by code_simp

text \<open>
  Claim C4, as stated, has discovery return regular files only. A symbolic link named
  \<^verbatim>\<open>link.png\<close> is not a directory, so it is returned, whatever it points to.
\<close>

theorem symbolic_link_is_returned:
  "getImageFilesRecursively ''/repo/images'' (Resolved [Entry ''link.png'' SymbolicLink])
     = Inr [''/repo/images/link.png'']
   \<and> \<not> lies_below ''/repo/images'' (Resolved [Entry ''link.png'' SymbolicLink])
         ''/repo/images/link.png'' ''link.png'' RegularFile"
  by (simp add: lies_below_Resolved path_join_def path_normalize_def normalize_segments_def
      normalize_step_def path_extname_def last_component_def lastIndexOf_def toLowerCase_def
      image_extensions_def)

text \<open>
  Claim C4, amended. When every directory below the root can be listed, discovery
  returns a list whose members are exactly the paths of the entries, at any depth, that
  are not directories (regular files, symbolic links and the other kinds alike) and whose
  extension, in lower case, is one of \<^verbatim>\<open>.png .jpg .jpeg .bmp .gif\<close>. Directories are
  descended into and never returned.
\<close>

theorem discovery_returns_image_entries:
  assumes "listable listing"
  shows "\<exists>files. getImageFilesRecursively dir listing = Inr files
           \<and> (\<forall>p. p \<in> set files \<longleftrightarrow>
                 (\<exists>n k. lies_below dir listing p n k
                    \<and> toLowerCase (path_extname n) \<in> set image_extensions))"
  using assms discovery_characterised [of listing dir] by auto

text \<open>
  In the mixed directory the bitmap in the subdirectory is found; the text file is not.
\<close>

theorem discovery_in_mixed_directory:
  "listable mixed_tree
   \<and> (\<exists>files. getImageFilesRecursively ''/repo/images'' mixed_tree = Inr files
         \<and> ''/repo/images/archive.gif/deep.bmp'' \<in> set files
         \<and> ''/repo/images/notes.txt'' \<notin> set files)"
proof -
  have l: "listable mixed_tree"
    by (simp add: mixed_tree_def)
  from discovery_returns_image_entries [OF l, of "''/repo/images''"] obtain files where
    f: "getImageFilesRecursively ''/repo/images'' mixed_tree = Inr files"
    and m: "\<forall>p. p \<in> set files \<longleftrightarrow>
                 (\<exists>n k. lies_below ''/repo/images'' mixed_tree p n k
                    \<and> toLowerCase (path_extname n) \<in> set image_extensions)"
    by blast
  have "lies_below ''/repo/images/archive.gif''
          (Resolved [Entry ''.png'' RegularFile, Entry ''deep.bmp'' RegularFile])
          (path_join ''/repo/images/archive.gif'' ''deep.bmp'') ''deep.bmp'' RegularFile"
    by (rule lies_below.here) simp
  then have "lies_below ''/repo/images'' mixed_tree
          ''/repo/images/archive.gif/deep.bmp'' ''deep.bmp'' RegularFile"
    unfolding mixed_tree_def
    by (intro lies_below.deeper [where d = "''archive.gif''"]) (simp_all add: join_plain)
  moreover have "toLowerCase (path_extname ''deep.bmp'') \<in> set image_extensions"
    by (simp add: path_extname_def last_component_def lastIndexOf_def toLowerCase_def
        image_extensions_def)
  ultimately have "''/repo/images/archive.gif/deep.bmp'' \<in> set files"
    using m by blast
  moreover have "''/repo/images/notes.txt'' \<notin> set files"
    using f mixed_discovery by auto
  ultimately show ?thesis
    using l f by blast
qed

section \<open>The order of the images\<close>

lemma Array_sort_permutation: "mset xs = mset ys \<Longrightarrow> Array_sort xs = Array_sort ys"
  unfolding Array_sort_def
  by (metis properties_for_sort sorted_sort mset_sort)

text \<open>
  Claim C5. The sorted sequence depends only on which paths were discovered: two
  enumerations \<open>xs\<close> and \<open>ys\<close> of the same files sort to the same sequence, which is
  ascending. Hence two runs that differ only in the order in which the file system
  enumerates the files have the same outcome, in both programs.
\<close>

theorem order_is_a_function_of_the_files:
  assumes "mset xs = mset ys"
    and "getImageFilesRecursively (imageDirectory e) (readdir e (imageDirectory e)) = Inr xs"
    and "getImageFilesRecursively (imageDirectory e) (enumerate_again (imageDirectory e)) = Inr ys"
  shows "Array_sort xs = Array_sort ys
       \<and> sorted (Array_sort xs) \<and> mset (Array_sort xs) = mset xs
       \<and> atlas_js (e\<lparr>readdir := enumerate_again\<rparr>) = atlas_js e
       \<and> generate_atlas_text_js (e\<lparr>readdir := enumerate_again\<rparr>) = generate_atlas_text_js e"
proof -
  let ?e' = "e\<lparr>readdir := enumerate_again\<rparr>"
  have s: "Array_sort ys = Array_sort xs"
    using Array_sort_permutation [OF assms(1)] by simp
  have l: "length ys = length xs"
    using assms(1) by (metis size_mset)
  have d: "imageDirectory ?e' = imageDirectory e" "outputFilePath ?e' = outputFilePath e"
    "outputImageReferenceName ?e' = outputImageReferenceName e" "prependPath ?e' = prependPath e"
    by (simp_all add: imageDirectory_def outputFilePath_def outputImageReferenceName_def
        prependPath_def)
  have sel: "readdir ?e' = enumerate_again" "Jimp_read ?e' = Jimp_read e"
    "Jimp_write ?e' = Jimp_write e" "writeFile ?e' = writeFile e"
    by simp_all
  have a: "createSpritesheet ?e' = createSpritesheet e"
    unfolding createSpritesheet_def d sel assms(2) assms(3) sum.case s l ..
  have b: "generateAtlasTextFile ?e' = generateAtlasTextFile e"
    unfolding generateAtlasTextFile_def d sel assms(2) assms(3) sum.case s l ..
  show ?thesis
    using s a b by (simp add: atlas_js_def generate_atlas_text_js_def Array_sort_def)
qed


text \<open>
  The scenario with the directories and files enumerated the other way round: the same
  two files, found in the opposite order, and the same outcome.
\<close>

theorem enumeration_order_witness:
  "getImageFilesRecursively ''/repo/images'' scenario_tree_again
     = Inr [''/repo/images/a/1.png'', ''/repo/images/b/2.png'']
   \<and> getImageFilesRecursively ''/repo/images'' scenario_tree
     = Inr [''/repo/images/b/2.png'', ''/repo/images/a/1.png'']
   \<and> atlas_js (scenario_env\<lparr>readdir := \<lambda>p. scenario_tree_again\<rparr>) = atlas_js scenario_env
   \<and> generate_atlas_text_js (scenario_env\<lparr>readdir := \<lambda>p. scenario_tree_again\<rparr>)
       = generate_atlas_text_js scenario_env"
proof -
  have again: "getImageFilesRecursively ''/repo/images'' scenario_tree_again
     = Inr [''/repo/images/a/1.png'', ''/repo/images/b/2.png'']"
    by code_simp
  have first: "getImageFilesRecursively ''/repo/images'' scenario_tree
     = Inr [''/repo/images/b/2.png'', ''/repo/images/a/1.png'']"
    by code_simp
  have p: "mset scenario_files = mset [''/repo/images/a/1.png'', ''/repo/images/b/2.png'']"
    by (simp add: scenario_files_def)
  have a: "getImageFilesRecursively (imageDirectory scenario_env)
      ((\<lambda>p. scenario_tree_again) (imageDirectory scenario_env))
     = Inr [''/repo/images/a/1.png'', ''/repo/images/b/2.png'']"
    using again by (simp add: scenario_imageDirectory)
  from order_is_a_function_of_the_files [OF p scenario_discovery a] again first
  show ?thesis by simp
qed

section \<open>Names in the descriptor\<close>















section \<open>The text of the descriptor\<close>

lemma lines_text_append: "lines_text (xs @ ys) = lines_text xs @ lines_text ys"
  by (simp add: lines_text_def)

lemma lines_text_concat: "lines_text (concat xss) = concat (map lines_text xss)"
  by (induction xss) (simp_all add: lines_text_append, simp add: lines_text_def)

lemma Number_toString_0: "Number_toString 0 = ''0''"
  by (simp add: Number_toString.simps digit_char_def)

lemma Descriptor_Emitter_blocks:
  "Descriptor_Emitter ref cw ch regions =
     header ref cw ch @ concat (map (\<lambda>(nm, pl). lines_text (region_lines nm pl)) regions)"
proof -
  have "Descriptor_Emitter ref cw ch regions = header ref cw ch
      @ concat (map lines_text (map (\<lambda>(nm, pl). region_lines nm pl) regions))"
    unfolding Descriptor_Emitter_def lines_text_append lines_text_concat
    by (simp add: lines_text_def header_def)
  also have "map lines_text (map (\<lambda>(nm, pl). region_lines nm pl) regions)
      = map (\<lambda>(nm, pl). lines_text (region_lines nm pl)) regions"
    by (simp add: comp_def case_prod_unfold)
  finally show ?thesis .
qed

section \<open>Paths below an absolute directory\<close>

lemma split_path_not_Nil [simp]: "split_path p \<noteq> []"
  by (induction p) (auto split: list.splits)















lemma abs_path_not_Nil [simp]: "abs_path segs \<noteq> []" and hd_abs_path [simp]: "hd (abs_path segs) = CHR ''/''"
  by (simp_all add: abs_path_def)





section \<open>Reading back what the emitter writes\<close>

lemma expect_append: "expect k (k @ s) = Some s"
  by (induction k) simp_all

lemma digit_char_is_digit: "d < 10 \<Longrightarrow> is_digit (digit_char d)"
proof -
  assume "d < 10"
  then have "d \<in> {0, 1, 2, 3, 4, 5, 6, 7, 8, 9}" by auto
  then show ?thesis
    by (auto simp: is_digit_def digit_char_def)
qed

lemma digit_value_digit_char: "d < 10 \<Longrightarrow> digit_value (digit_char d) = d"
proof -
  assume "d < 10"
  then have "d \<in> {0, 1, 2, 3, 4, 5, 6, 7, 8, 9}" by auto
  then show ?thesis
    by (auto simp: digit_value_def digit_char_def)
qed

lemma Number_toString_digits: "\<forall>c\<in>set (Number_toString n). is_digit c"
proof (induction n rule: Number_toString.induct)
  case (1 n)
  show ?case
  proof (cases "n < 10")
    case True
    then show ?thesis
      by (subst Number_toString.simps) (simp add: digit_char_is_digit)
  next
    case False
    with 1 show ?thesis
      by (subst Number_toString.simps) (simp add: digit_char_is_digit)
  qed
qed

lemma Number_toString_not_Nil: "Number_toString n \<noteq> []"
  by (subst Number_toString.simps) simp

lemma Number_toString_value:
  "foldl (\<lambda>n c. 10 * n + digit_value c) 0 (Number_toString n) = n"
proof (induction n rule: Number_toString.induct)
  case (1 n)
  show ?case
  proof (cases "n < 10")
    case True
    then show ?thesis
      by (subst Number_toString.simps) (simp add: digit_value_digit_char)
  next
    case False
    with 1 show ?thesis
      by (subst Number_toString.simps) (simp add: digit_value_digit_char)
  qed
qed

lemma read_number_Number_toString:
  assumes "rest = [] \<or> \<not> is_digit (hd rest)"
  shows "read_number (Number_toString n @ rest) = Some (n, rest)"
proof -
  have r: "takeWhile is_digit rest = []" "dropWhile is_digit rest = rest"
    using assms by (cases rest; auto)+
  have "takeWhile is_digit (Number_toString n @ rest) = Number_toString n"
    using Number_toString_digits [of n] r(1) by (simp add: takeWhile_append2)
  moreover have "dropWhile is_digit (Number_toString n @ rest) = rest"
    using Number_toString_digits [of n] r(2) by (simp add: dropWhile_append2)
  ultimately show ?thesis
    by (simp add: read_number_def Number_toString_not_Nil Number_toString_value)
qed

lemma read_pair_written:
  "read_pair key (key @ Number_toString a @ '', '' @ Number_toString b @ newline @ rest)
     = Some ((a, b), rest)"
proof -
  have 1: "read_number (Number_toString a @ '', '' @ Number_toString b @ newline @ rest)
      = Some (a, '', '' @ Number_toString b @ newline @ rest)"
    by (rule read_number_Number_toString) (simp add: is_digit_def)
  have 2: "read_number (Number_toString b @ newline @ rest) = Some (b, newline @ rest)"
    by (rule read_number_Number_toString) (simp add: is_digit_def newline_def)
  have 3: "expect '', '' ('', '' @ Number_toString b @ newline @ rest)
      = Some (Number_toString b @ newline @ rest)"
    by (rule expect_append)
  show ?thesis
    unfolding read_pair_def expect_append 1 option.case prod.case 3 2
    by simp
qed


lemma region_lines_shape:
  "lines_text (region_lines nm pl) @ rest =
     (nm @ newline @ ''  rotate: false'' @ newline)
     @ (''  xy: '' @ Number_toString (place_x pl) @ '', '' @ Number_toString (place_y pl) @ newline
     @ (''  size: '' @ Number_toString (place_width pl) @ '', ''
          @ Number_toString (place_height pl) @ newline
     @ (''  orig: '' @ Number_toString (place_width pl) @ '', ''
          @ Number_toString (place_height pl) @ newline
     @ ((''  offset: 0, 0'' @ newline @ ''  index: -1'' @ newline) @ rest))))"
  by (simp add: lines_text_def region_lines_def)

lemma read_regions_written:
  "read_regions (map fst regions)
     (concat (map (\<lambda>(nm, pl). lines_text (region_lines nm pl)) regions))
   = Some (map snd regions)"
proof (induction regions)
  case Nil
  show ?case by simp
next
  case (Cons r regions)
  obtain nm pl where r: "r = (nm, pl)" by (cases r)
  let ?rest = "concat (map (\<lambda>(nm, pl). lines_text (region_lines nm pl)) regions)"
  have "read_regions (nm # map fst regions) (lines_text (region_lines nm pl) @ ?rest)
      = Some (\<lparr>place_x = place_x pl, place_y = place_y pl, place_width = place_width pl,
                place_height = place_height pl\<rparr> # map snd regions)"
    unfolding region_lines_shape
    by (simp only: read_regions.simps expect_append read_pair_written option.case prod.case
        Cons.IH simp_thms if_True)
  then show ?case
    by (simp add: r)
qed

lemma header_shape:
  "lines_text [ref, ''size: '' @ Number_toString cw @ '', '' @ Number_toString ch,
       ''format: RGBA8888'', ''filter: MipMapLinearLinear, MipMapLinearLinear'', ''repeat: none'']
     @ rest =
     (ref @ newline)
     @ (''size: '' @ Number_toString cw @ '', '' @ Number_toString ch @ newline
     @ ((''format: RGBA8888'' @ newline
          @ ''filter: MipMapLinearLinear, MipMapLinearLinear'' @ newline
          @ ''repeat: none'' @ newline) @ rest))"
  by (simp add: lines_text_def)

lemma read_descriptor_written:
  "read_descriptor ref (map fst regions) (Descriptor_Emitter ref cw ch regions)
     = Some (cw, ch, map snd regions)"
proof -
  have "Descriptor_Emitter ref cw ch regions =
      lines_text [ref, ''size: '' @ Number_toString cw @ '', '' @ Number_toString ch,
       ''format: RGBA8888'', ''filter: MipMapLinearLinear, MipMapLinearLinear'', ''repeat: none'']
      @ concat (map (\<lambda>(nm, pl). lines_text (region_lines nm pl)) regions)"
    unfolding Descriptor_Emitter_def lines_text_append lines_text_concat
    by (simp add: comp_def case_prod_unfold)
  then show ?thesis
    unfolding header_shape
    by (simp only: read_descriptor_def expect_append read_pair_written option.case prod.case
        read_regions_written)
qed


section \<open>One layout for both artifacts, continued\<close>

lemma region_block_lines:
  "region_block root prefix img y =
     lines_text (region_lines (prefix @ relativePathWithoutExtension root (path img))
       \<lparr>place_x = 0, place_y = y, place_width = img_width img, place_height = img_height img\<rparr>)"
  by (simp add: region_block_def relativePathWithoutExtension_def Let_def lines_text_def
      region_lines_def Number_toString_0)

lemma region_blocks_lines:
  "map2 (region_block root prefix)
       (map (\<lambda>p. \<lparr>path = p, img_width = width (img p), img_height = height (img p)\<rparr>) ps)
       (offsets y (map (\<lambda>p. height (img p)) ps))
   = map (\<lambda>(nm, pl). lines_text (region_lines nm pl))
       (zip (map (\<lambda>p. prefix @ relativePathWithoutExtension root p) ps)
          (fst (layout_pass y m (map (\<lambda>p. (width (img p), height (img p))) ps))))"
  unfolding layout_pass_offsets fst_conv
  by (induction ps arbitrary: y) (simp_all add: region_block_lines)

lemma length_layout_pass:
  "length (fst (layout_pass y m dims)) = length dims"
  unfolding layout_pass_offsets fst_conv by simp

lemma generateAtlasTextFile_emits:
  assumes found: "getImageFilesRecursively (imageDirectory e) (readdir e (imageDirectory e)) = Inr files"
    and nonempty: "files \<noteq> []"
    and reads: "\<forall>p\<in>set files. Jimp_read e p = Inr (img p)"
    and writes: "writeFile e (outputFilePath e) = None"
  shows "generateAtlasTextFile e =
        \<lparr>exit_code = 0,
         written = Some (outputFilePath e,
           Descriptor_Emitter (outputImageReferenceName e)
             (fst (snd (layout_pass 0 0 (map (\<lambda>p. (width (img p), height (img p))) (Array_sort files)))))
             (snd (snd (layout_pass 0 0 (map (\<lambda>p. (width (img p), height (img p))) (Array_sort files)))))
             (zip (map (\<lambda>p. prependPath e @ relativePathWithoutExtension (imageDirectory e) p)
                     (Array_sort files))
                (fst (layout_pass 0 0 (map (\<lambda>p. (width (img p), height (img p))) (Array_sort files))))))\<rparr>"
proof -
  let ?sorted = "Array_sort files"
  let ?L = "layout_pass 0 0 (map (\<lambda>p. (width (img p), height (img p))) ?sorted)"
  have m: "Max (insert 0 ((\<lambda>p. width (img p)) ` set files)) = Max ((\<lambda>p. width (img p)) ` set files)"
    using nonempty by (intro Max_insert_zero) simp_all
  have canvas: "snd ?L = (Max ((\<lambda>p. width (img p)) ` set files),
                          sum_list (map (\<lambda>p. height (img p)) files))"
    by (simp add: layout_pass_canvas m sum_list_Array_sort del: Max_insert)
  show ?thesis
    unfolding Descriptor_Emitter_blocks canvas fst_conv snd_conv
      region_blocks_lines [symmetric]
    by (rule generateAtlasTextFile_all_read [OF found nonempty reads writes])
qed

text \<open>
  Claim C3. Let \<^verbatim>\<open>atlas.js\<close> run in \<open>e1\<close> and \<^verbatim>\<open>generate_atlas_text.js\<close> in \<open>e2\<close>
  on the same image directory with the same images (the output names and the prefix may
  differ). Then one result of the Layout Engine of the specification, computed from the
  sorted images, describes both files. The image has its canvas, and the images are
  composited in its order at its \<open>(x, y)\<close>. The descriptor is, character for character,
  the document of section 4.4 for that canvas and those placements: the line
  \<^verbatim>\<open>size: <width>, <height>\<close> of the canvas and, for each placement in the same order,
  the lines \<^verbatim>\<open>xy: <x>, <y>\<close>, \<^verbatim>\<open>size:\<close> and \<^verbatim>\<open>orig:\<close> of the placement. Reading
  the written descriptor back yields exactly the canvas and the placements that the
  Layout Engine derives from the tree, and every \<open>x\<close> is 0.
\<close>

theorem image_and_descriptor_share_one_layout:
  assumes "dirname e2 = dirname e1" and "args e2 ! 0 = args e1 ! 0"
    and "readdir e2 = readdir e1" and "Jimp_read e2 = Jimp_read e1"
    and "getImageFilesRecursively (imageDirectory e1) (readdir e1 (imageDirectory e1)) = Inr files"
    and "files \<noteq> []"
    and "\<forall>p\<in>set files. Jimp_read e1 p = Inr (img p)"
    and "Jimp_write e1 (outputFilePath e1) = None"
    and "writeFile e2 (outputFilePath e2) = None"
  shows "\<exists>placements canvas_width canvas_height names content.
      Layout_Engine (map (\<lambda>p. (width (img p), height (img p))) (Array_sort files))
        = (placements, canvas_width, canvas_height)
    \<and> createSpritesheet e1 =
        \<lparr>exit_code = 0,
         written = Some (outputFilePath e1,
           \<lparr>sheet_width = canvas_width, sheet_height = canvas_height, sheet_color = 0,
            composited = map2 (\<lambda>p pl. (img p, place_x pl, place_y pl))
                           (Array_sort files) placements\<rparr>)\<rparr>
    \<and> generateAtlasTextFile e2 = \<lparr>exit_code = 0, written = Some (outputFilePath e2, content)\<rparr>
    \<and> names = map (\<lambda>p. prependPath e2 @ relativePathWithoutExtension (imageDirectory e2) p)
                (Array_sort files)
    \<and> length placements = length files
    \<and> content = Descriptor_Emitter (outputImageReferenceName e2) canvas_width canvas_height
                  (zip names placements)
    \<and> read_descriptor (outputImageReferenceName e2) names content
        = Some (canvas_width, canvas_height, placements)
    \<and> (\<forall>pl\<in>set placements. place_x pl = 0)"
proof -
  let ?sorted = "Array_sort files"
  let ?L = "layout_pass 0 0 (map (\<lambda>p. (width (img p), height (img p))) ?sorted)"
  let ?names = "map (\<lambda>p. prependPath e2 @ relativePathWithoutExtension (imageDirectory e2) p) ?sorted"
  let ?content = "Descriptor_Emitter (outputImageReferenceName e2) (fst (snd ?L)) (snd (snd ?L))
       (zip ?names (fst ?L))"
  have dir: "imageDirectory e2 = imageDirectory e1"
    using assms(1,2) by (simp add: imageDirectory_def)
  have m: "Max (insert 0 ((\<lambda>p. width (img p)) ` set files)) = Max ((\<lambda>p. width (img p)) ` set files)"
    using assms(6) by (intro Max_insert_zero) simp_all
  have canvas: "snd ?L = (Max ((\<lambda>p. width (img p)) ` set files),
                          sum_list (map (\<lambda>p. height (img p)) files))"
    by (simp add: layout_pass_canvas m sum_list_Array_sort del: Max_insert)
  have a: "createSpritesheet e1 =
        \<lparr>exit_code = 0,
         written = Some (outputFilePath e1,
           \<lparr>sheet_width = fst (snd ?L), sheet_height = snd (snd ?L), sheet_color = 0,
            composited = map2 (\<lambda>p pl. (img p, place_x pl, place_y pl)) ?sorted (fst ?L)\<rparr>)\<rparr>"
    unfolding canvas layout_pass_composited
    using createSpritesheet_all_read [OF assms(5-8)] by simp
  have found2: "getImageFilesRecursively (imageDirectory e2) (readdir e2 (imageDirectory e2)) = Inr files"
    using assms(5) by (simp add: dir assms(3))
  have reads2: "\<forall>p\<in>set files. Jimp_read e2 p = Inr (img p)"
    using assms(7) by (simp add: assms(4))
  have b: "generateAtlasTextFile e2 = \<lparr>exit_code = 0, written = Some (outputFilePath e2, ?content)\<rparr>"
    by (rule generateAtlasTextFile_emits [OF found2 assms(6) reads2 assms(9)])
  have len: "length (fst ?L) = length files"
    by (simp add: length_layout_pass)
  have fs: "map fst (zip ?names (fst ?L)) = ?names" "map snd (zip ?names (fst ?L)) = fst ?L"
    using len by (simp_all add: map_fst_zip map_snd_zip)
  have r: "read_descriptor (outputImageReferenceName e2) ?names ?content
      = Some (fst (snd ?L), snd (snd ?L), fst ?L)"
    using read_descriptor_written
      [of "outputImageReferenceName e2" "zip ?names (fst ?L)" "fst (snd ?L)" "snd (snd ?L)"]
    by (simp only: fs)
  have "Layout_Engine (map (\<lambda>p. (width (img p), height (img p))) ?sorted)
          = (fst ?L, fst (snd ?L), snd (snd ?L))"
    by (simp add: Layout_Engine_def)
  with a b len r layout_pass_x [of 0 0] show ?thesis
    by blast
qed


lemma scenario_region_names:
  "relativePathWithoutExtension ''/repo/images'' ''/repo/images/a/1.png'' = ''a/1''"
  "relativePathWithoutExtension ''/repo/images'' ''/repo/images/b/2.png'' = ''b/2''"
  by (simp_all add: relativePathWithoutExtension_def path_relative_def normalize_segments_def
      normalize_step_def replace_backslashes_def lastIndexOf_def substring_def)

lemma scenario_numbers:
  "Number_toString 0 = ''0''" "Number_toString 5 = ''5''" "Number_toString 10 = ''10''"
  "Number_toString 20 = ''20''" "Number_toString 25 = ''25''" "Number_toString 30 = ''30''"
  by (simp_all add: Number_toString.simps digit_char_def)

text \<open>
  In the scenario the Layout Engine places \<^verbatim>\<open>a/1.png\<close> at \<open>(0, 0)\<close> and
  \<^verbatim>\<open>b/2.png\<close> at \<open>(0, 20)\<close> on a canvas of 30 by 25; the theorem gives both files, and
  the descriptor reads back as that layout.
\<close>

theorem scenario_image_and_descriptor:
  "createSpritesheet scenario_atlas_env =
     \<lparr>exit_code = 0,
      written = Some (''/repo/scripts/atlas.png'',
        \<lparr>sheet_width = 30, sheet_height = 25, sheet_color = 0,
         composited = [(\<lparr>width = 10, height = 20, data = []\<rparr>, 0, 0),
                       (\<lparr>width = 30, height = 5, data = []\<rparr>, 0, 20)]\<rparr>)\<rparr>
   \<and> generateAtlasTextFile scenario_env =
     \<lparr>exit_code = 0,
      written = Some (''/repo/scripts/atlas.txt'',
        lines_text
          [''atlas.png'',
           ''size: 30, 25'',
           ''format: RGBA8888'',
           ''filter: MipMapLinearLinear, MipMapLinearLinear'',
           ''repeat: none'',
           ''sprites/a/1'',
           ''  rotate: false'',
           ''  xy: 0, 0'',
           ''  size: 10, 20'',
           ''  orig: 10, 20'',
           ''  offset: 0, 0'',
           ''  index: -1'',
           ''sprites/b/2'',
           ''  rotate: false'',
           ''  xy: 0, 20'',
           ''  size: 30, 5'',
           ''  orig: 30, 5'',
           ''  offset: 0, 0'',
           ''  index: -1''])\<rparr>
   \<and> read_descriptor ''atlas.png'' [''sprites/a/1'', ''sprites/b/2'']
        (Descriptor_Emitter ''atlas.png'' 30 25
           [(''sprites/a/1'', \<lparr>place_x = 0, place_y = 0, place_width = 10, place_height = 20\<rparr>),
            (''sprites/b/2'', \<lparr>place_x = 0, place_y = 20, place_width = 30, place_height = 5\<rparr>)])
      = Some (30, 25,
          [\<lparr>place_x = 0, place_y = 0, place_width = 10, place_height = 20\<rparr>,
           \<lparr>place_x = 0, place_y = 20, place_width = 30, place_height = 5\<rparr>])"
proof -
  have same: "dirname scenario_env = dirname scenario_atlas_env"
    "args scenario_env ! 0 = args scenario_atlas_env ! 0"
    "readdir scenario_env = readdir scenario_atlas_env"
    "Jimp_read scenario_env = Jimp_read scenario_atlas_env"
    by (simp_all add: scenario_atlas_env_def scenario_env_def)
  have ne: "scenario_files \<noteq> []"
    by (simp add: scenario_files_def)
  have reads: "\<forall>p\<in>set scenario_files. Jimp_read scenario_atlas_env p = Inr (scenario_image p)"
    using scenario_reads by (simp add: scenario_atlas_env_def)
  have w1: "Jimp_write scenario_atlas_env (outputFilePath scenario_atlas_env) = None"
    by (simp add: scenario_atlas_env_def scenario_env_def)
  have layout:
    "Layout_Engine (map (\<lambda>p. (width (scenario_image p), height (scenario_image p)))
        (Array_sort scenario_files))
      = ([\<lparr>place_x = 0, place_y = 0, place_width = 10, place_height = 20\<rparr>,
          \<lparr>place_x = 0, place_y = 20, place_width = 30, place_height = 5\<rparr>], 30, 25)"
    by (simp add: scenario_sorted Layout_Engine_def scenario_image_def)
  from image_and_descriptor_share_one_layout
    [OF same scenario_atlas_discovery ne reads w1 scenario_writes(2)]
  obtain placements cw ch names content where
    L: "Layout_Engine (map (\<lambda>p. (width (scenario_image p), height (scenario_image p)))
          (Array_sort scenario_files)) = (placements, cw, ch)"
    and A: "createSpritesheet scenario_atlas_env =
        \<lparr>exit_code = 0,
         written = Some (outputFilePath scenario_atlas_env,
           \<lparr>sheet_width = cw, sheet_height = ch, sheet_color = 0,
            composited = map2 (\<lambda>p pl. (scenario_image p, place_x pl, place_y pl))
                           (Array_sort scenario_files) placements\<rparr>)\<rparr>"
    and B: "generateAtlasTextFile scenario_env =
        \<lparr>exit_code = 0, written = Some (outputFilePath scenario_env, content)\<rparr>"
    and N: "names = map (\<lambda>p. prependPath scenario_env
                @ relativePathWithoutExtension (imageDirectory scenario_env) p)
                (Array_sort scenario_files)"
    and D: "content = Descriptor_Emitter (outputImageReferenceName scenario_env) cw ch
                  (zip names placements)"
    and R: "read_descriptor (outputImageReferenceName scenario_env) names content
        = Some (cw, ch, placements)"
    by blast
  have P: "placements = [\<lparr>place_x = 0, place_y = 0, place_width = 10, place_height = 20\<rparr>,
          \<lparr>place_x = 0, place_y = 20, place_width = 30, place_height = 5\<rparr>]"
    and C: "cw = 30" "ch = 25"
    using L layout by simp_all
  have N': "names = [''sprites/a/1'', ''sprites/b/2'']"
    unfolding N scenario_sorted scenario_imageDirectory scenario_prependPath
    by (simp add: scenario_region_names)
  have D': "content = Descriptor_Emitter ''atlas.png'' 30 25
           [(''sprites/a/1'', \<lparr>place_x = 0, place_y = 0, place_width = 10, place_height = 20\<rparr>),
            (''sprites/b/2'', \<lparr>place_x = 0, place_y = 20, place_width = 30, place_height = 5\<rparr>)]"
    unfolding D N' P C scenario_reference_name by simp
  have T: "content = lines_text
          [''atlas.png'',
           ''size: 30, 25'',
           ''format: RGBA8888'',
           ''filter: MipMapLinearLinear, MipMapLinearLinear'',
           ''repeat: none'',
           ''sprites/a/1'',
           ''  rotate: false'',
           ''  xy: 0, 0'',
           ''  size: 10, 20'',
           ''  orig: 10, 20'',
           ''  offset: 0, 0'',
           ''  index: -1'',
           ''sprites/b/2'',
           ''  rotate: false'',
           ''  xy: 0, 20'',
           ''  size: 30, 5'',
           ''  orig: 30, 5'',
           ''  offset: 0, 0'',
           ''  index: -1'']"
    unfolding D' by (simp add: Descriptor_Emitter_def region_lines_def scenario_numbers)
  have 1: "createSpritesheet scenario_atlas_env =
     \<lparr>exit_code = 0,
      written = Some (''/repo/scripts/atlas.png'',
        \<lparr>sheet_width = 30, sheet_height = 25, sheet_color = 0,
         composited = [(\<lparr>width = 10, height = 20, data = []\<rparr>, 0, 0),
                       (\<lparr>width = 30, height = 5, data = []\<rparr>, 0, 20)]\<rparr>)\<rparr>"
    using A unfolding P C scenario_sorted scenario_atlas_outputFilePath
    by (simp add: scenario_image_def)
  have 2: "generateAtlasTextFile scenario_env =
     \<lparr>exit_code = 0, written = Some (''/repo/scripts/atlas.txt'', content)\<rparr>"
    using B unfolding scenario_outputFilePath .
  have 3: "read_descriptor ''atlas.png'' [''sprites/a/1'', ''sprites/b/2''] content
      = Some (30, 25,
          [\<lparr>place_x = 0, place_y = 0, place_width = 10, place_height = 20\<rparr>,
           \<lparr>place_x = 0, place_y = 20, place_width = 30, place_height = 5\<rparr>])"
    using R unfolding N' P C scenario_reference_name .
  show ?thesis
    using 1 2 3 unfolding T [symmetric] D' by simp
qed

section \<open>The names of the regions\<close>



lemma length_forward_slashes [simp]: "length (forward_slashes s) = length s"
  by (induction s) simp_all










lemma toLowerCase_Nil_iff: "toLowerCase s = [] \<longleftrightarrow> s = []"
  by (simp add: toLowerCase_def)








section \<open>The descriptor\<close>








section \<open>What compositing does to the pixels\<close>












section \<open>The compositor\<close>




end
